theory Spec2Isabelle
  imports Main
begin

section \<open>Values, exceptions and the boundary to the store\<close>

text \<open>
  The two source files are a facade over the redis client library: every effect of the
  program is a call into that library (the store, its lock, its pub/sub object, the
  connection pool), a call of the caller's callback, or a log line. The model keeps a
  trace of these events. What a library call answers is not the program's to decide:
  it is read from an environment, a record of functions that map the history so far and
  the call to either a raised exception (\<open>Inl\<close>) or a returned value (\<open>Inr\<close>).
  The theorems hold for every environment; concrete environments are used only to
  evaluate the program at concrete inputs.
\<close>

datatype pyval = PNone | PInt int | PStr string

text \<open>
  \<open>RedisError m\<close> stands for \<^verbatim>\<open>redis.asyncio.RedisError\<close> and its subclasses
  (connection, timeout and lock errors), with \<open>m\<close> what \<^verbatim>\<open>str(e)\<close> gives;
  \<open>NoneDeref\<close> for the error Python raises when an attribute of \<^verbatim>\<open>None\<close> is used or
  \<^verbatim>\<open>None\<close> is entered as a context manager; \<open>OtherError\<close> for every other exception.
  Only the first is caught by \<^verbatim>\<open>except RedisError\<close>.
\<close>

datatype exn = RedisError string | NoneDeref | OtherError string

datatype level = DEBUG | INFO | ERROR

text \<open>A log message is kept as the pieces of its f-string.\<close>

datatype piece = Lit string | Str string | Val pyval | Vals "pyval list"

record message =
  mtype :: string
  mpattern :: "string option"
  mchannel :: string
  mdata :: pyval

record blocking_connection_pool =
  pool_id :: nat
  host :: string
  port :: int
  db :: int
  max_connections :: int
  decode_responses :: bool

type_synonym conn = nat

record redis_lock =
  lock_redis :: conn
  lock_name :: string

datatype call =
    Connect "blocking_connection_pool option"
  | Aclose conn
  | Set conn string pyval "int option"
  | Get conn string
  | Keys conn string
  | Publish conn string pyval
  | Sadd conn string "pyval list"
  | LockEnter redis_lock
  | LockExit redis_lock
  | Subscribe conn string
  | Listen conn
  | PubsubExit conn
  | Callback pyval
  | Disconnect blocking_connection_pool

datatype reply =
    RUnit
  | RConn conn
  | RStr "string option"
  | RKeys "string list"
  | RInt int
  | RMsg "message option"

datatype event = Ev call "exn + reply" | Log level "piece list"

type_synonym trace = "event list"

type_synonym callback = "trace \<Rightarrow> pyval \<Rightarrow> exn + unit"

record env =
  store_connect :: "trace \<Rightarrow> blocking_connection_pool option \<Rightarrow> exn + conn"
  store_aclose :: "trace \<Rightarrow> conn \<Rightarrow> exn + unit"
  store_set :: "trace \<Rightarrow> conn \<Rightarrow> string \<Rightarrow> pyval \<Rightarrow> int option \<Rightarrow> exn + unit"
  store_get :: "trace \<Rightarrow> conn \<Rightarrow> string \<Rightarrow> exn + string option"
  store_keys :: "trace \<Rightarrow> conn \<Rightarrow> string \<Rightarrow> exn + string list"
  store_publish :: "trace \<Rightarrow> conn \<Rightarrow> string \<Rightarrow> pyval \<Rightarrow> exn + int"
  store_sadd :: "trace \<Rightarrow> conn \<Rightarrow> string \<Rightarrow> pyval list \<Rightarrow> exn + int"
  lock_acquire :: "trace \<Rightarrow> redis_lock \<Rightarrow> exn + unit"
  lock_release :: "trace \<Rightarrow> redis_lock \<Rightarrow> exn + unit"
  pubsub_subscribe :: "trace \<Rightarrow> conn \<Rightarrow> string \<Rightarrow> exn + unit"
  pubsub_listen :: "trace \<Rightarrow> conn \<Rightarrow> exn + message option"
  pubsub_aclose :: "trace \<Rightarrow> conn \<Rightarrow> exn + unit"
  pool_disconnect :: "trace \<Rightarrow> blocking_connection_pool \<Rightarrow> exn + unit"

text \<open>
  One library call: ask the environment, append the event, hand the answer back.
  \<open>wrap\<close> stores the typed answer in the trace.
\<close>

definition perform ::
  "(trace \<Rightarrow> exn + 'a) \<Rightarrow> call \<Rightarrow> ('a \<Rightarrow> reply) \<Rightarrow> trace \<Rightarrow> (exn + 'a) \<times> trace" where
  "perform ask c wrap tr = (ask tr, tr @ [Ev c (map_sum id wrap (ask tr))])"

definition log :: "level \<Rightarrow> piece list \<Rightarrow> trace \<Rightarrow> trace" where
  "log lv msg tr = tr @ [Log lv msg]"

text \<open>\<^verbatim>\<open>await Redis(connection_pool=pool)\<close>\<close>

definition Redis :: "env \<Rightarrow> blocking_connection_pool option \<Rightarrow> trace \<Rightarrow> (exn + conn) \<times> trace" where
  "Redis env p = perform (\<lambda>tr. store_connect env tr p) (Connect p) RConn"

definition conn_aclose :: "env \<Rightarrow> conn \<Rightarrow> trace \<Rightarrow> (exn + unit) \<times> trace" where
  "conn_aclose env cn = perform (\<lambda>tr. store_aclose env tr cn) (Aclose cn) (\<lambda>_. RUnit)"

definition conn_set ::
  "env \<Rightarrow> conn \<Rightarrow> string \<Rightarrow> pyval \<Rightarrow> int option \<Rightarrow> trace \<Rightarrow> (exn + unit) \<times> trace" where
  "conn_set env cn k v ex = perform (\<lambda>tr. store_set env tr cn k v ex) (Set cn k v ex) (\<lambda>_. RUnit)"

definition conn_get :: "env \<Rightarrow> conn \<Rightarrow> string \<Rightarrow> trace \<Rightarrow> (exn + string option) \<times> trace" where
  "conn_get env cn k = perform (\<lambda>tr. store_get env tr cn k) (Get cn k) RStr"

definition conn_keys :: "env \<Rightarrow> conn \<Rightarrow> string \<Rightarrow> trace \<Rightarrow> (exn + string list) \<times> trace" where
  "conn_keys env cn pat = perform (\<lambda>tr. store_keys env tr cn pat) (Keys cn pat) RKeys"

definition conn_publish ::
  "env \<Rightarrow> conn \<Rightarrow> string \<Rightarrow> pyval \<Rightarrow> trace \<Rightarrow> (exn + int) \<times> trace" where
  "conn_publish env cn ch m = perform (\<lambda>tr. store_publish env tr cn ch m) (Publish cn ch m) RInt"

definition conn_sadd ::
  "env \<Rightarrow> conn \<Rightarrow> string \<Rightarrow> pyval list \<Rightarrow> trace \<Rightarrow> (exn + int) \<times> trace" where
  "conn_sadd env cn k vs = perform (\<lambda>tr. store_sadd env tr cn k vs) (Sadd cn k vs) RInt"

text \<open>
  \<^verbatim>\<open>RedisLock(conn, name)\<close> only builds the lock object; entering it acquires the lock
  in the store and leaving it releases it, and both are calls that can fail.
\<close>

definition RedisLock :: "conn \<Rightarrow> string \<Rightarrow> redis_lock" where
  "RedisLock cn name = \<lparr>lock_redis = cn, lock_name = name\<rparr>"

definition lock_aenter :: "env \<Rightarrow> redis_lock \<Rightarrow> trace \<Rightarrow> (exn + unit) \<times> trace" where
  "lock_aenter env l = perform (\<lambda>tr. lock_acquire env tr l) (LockEnter l) (\<lambda>_. RUnit)"

definition lock_aexit :: "env \<Rightarrow> redis_lock \<Rightarrow> trace \<Rightarrow> (exn + unit) \<times> trace" where
  "lock_aexit env l = perform (\<lambda>tr. lock_release env tr l) (LockExit l) (\<lambda>_. RUnit)"

definition pubsub_subscribe_call ::
  "env \<Rightarrow> conn \<Rightarrow> string \<Rightarrow> trace \<Rightarrow> (exn + unit) \<times> trace" where
  "pubsub_subscribe_call env cn ch =
     perform (\<lambda>tr. pubsub_subscribe env tr cn ch) (Subscribe cn ch) (\<lambda>_. RUnit)"

text \<open>The next item of \<^verbatim>\<open>pubsub.listen()\<close>: \<open>Inr None\<close> is the end of the stream.\<close>

definition pubsub_next :: "env \<Rightarrow> conn \<Rightarrow> trace \<Rightarrow> (exn + message option) \<times> trace" where
  "pubsub_next env cn = perform (\<lambda>tr. pubsub_listen env tr cn) (Listen cn) RMsg"

definition pubsub_aexit :: "env \<Rightarrow> conn \<Rightarrow> trace \<Rightarrow> (exn + unit) \<times> trace" where
  "pubsub_aexit env cn = perform (\<lambda>tr. pubsub_aclose env tr cn) (PubsubExit cn) (\<lambda>_. RUnit)"

definition invoke :: "callback \<Rightarrow> pyval \<Rightarrow> trace \<Rightarrow> (exn + unit) \<times> trace" where
  "invoke cb v = perform (\<lambda>tr. cb tr v) (Callback v) (\<lambda>_. RUnit)"

definition pool_disconnect_call ::
  "env \<Rightarrow> blocking_connection_pool \<Rightarrow> trace \<Rightarrow> (exn + unit) \<times> trace" where
  "pool_disconnect_call env p =
     perform (\<lambda>tr. pool_disconnect env tr p) (Disconnect p) (\<lambda>_. RUnit)"

text \<open>
  Leaving an \<^verbatim>\<open>async with\<close> block whose exit returns nothing: the exit runs whatever the
  body did; an exception of the exit replaces the body's outcome, otherwise the body's
  outcome stands.
\<close>

definition leave :: "(exn + 'a) \<Rightarrow> (exn + unit) \<times> trace \<Rightarrow> (exn + 'a) \<times> trace" where
  "leave body ex = (case ex of (Inl e, tr) \<Rightarrow> (Inl e, tr) | (Inr _, tr) \<Rightarrow> (body, tr))"

section \<open>connection\_manager.py\<close>

record manager =
  pool :: "blocking_connection_pool option"

text \<open>
  \<^verbatim>\<open>RedisConnectionManager.__init__\<close>: builds the pool object, no call to the store.
  \<open>fresh\<close> is the identity of the new pool object.
\<close>

definition manager_init :: "nat \<Rightarrow> string \<Rightarrow> int \<Rightarrow> int \<Rightarrow> int \<Rightarrow> manager" where
  "manager_init fresh h p d mc =
     \<lparr>pool = Some \<lparr>pool_id = fresh, host = h, port = p, db = d,
                   max_connections = mc, decode_responses = True\<rparr>\<rparr>"

definition get_pool :: "manager \<Rightarrow> blocking_connection_pool option" where
  "get_pool m = pool m"

text \<open>\<^verbatim>\<open>RedisConnectionManager.close\<close>; the manager is returned as the call leaves it.\<close>

definition manager_close :: "env \<Rightarrow> manager \<Rightarrow> trace \<Rightarrow> (exn + unit) \<times> manager \<times> trace" where
  "manager_close env m tr =
     (case pool m of
        None \<Rightarrow> (Inr (), m, tr)
      | Some p \<Rightarrow>
          (case pool_disconnect_call env p tr of
             (Inr _, tr1) \<Rightarrow> (Inr (), m, log INFO [Lit ''Closed Redis connection pool''] tr1)
           | (Inl (RedisError s), tr1) \<Rightarrow>
               (Inr (), m, log ERROR [Lit ''Error closing Redis connection pool: '', Str s] tr1)
           | (Inl e, tr1) \<Rightarrow> (Inl e, m, tr1)))"

section \<open>client.py\<close>

record client =
  namespace :: string
  self_pool :: "blocking_connection_pool option"
  self_lock :: "redis_lock option"
  self_conn :: "conn option"

text \<open>\<^verbatim>\<open>AsyncRedisClient.__init__\<close>\<close>

definition AsyncRedisClient :: "string \<Rightarrow> manager \<Rightarrow> client" where
  "AsyncRedisClient ns connection_manager =
     \<lparr>namespace = ns, self_pool = get_pool connection_manager,
      self_lock = None, self_conn = None\<rparr>"

text \<open>
  \<^verbatim>\<open>init\<close>. Each method returns its outcome, the client object as the call leaves it
  (also when it raises) and the trace.
\<close>

definition client_init :: "env \<Rightarrow> client \<Rightarrow> trace \<Rightarrow> (exn + unit) \<times> client \<times> trace" where
  "client_init env c tr =
     (case Redis env (self_pool c) tr of
        (Inr cn, tr1) \<Rightarrow>
          (let c1 = c\<lparr>self_conn := Some cn\<rparr>;
               c2 = c1\<lparr>self_lock := Some (RedisLock cn (namespace c1 @ '':lock''))\<rparr>
           in (Inr (), c2,
               log DEBUG [Lit ''Initialized Redis connection for namespace '',
                          Str (namespace c2)] tr1))
      | (Inl (RedisError s), tr1) \<Rightarrow>
          (Inl (RedisError s), c,
           log ERROR [Lit ''Error initializing Redis connection for '', Str (namespace c),
                      Lit '': '', Str s] tr1)
      | (Inl e, tr1) \<Rightarrow> (Inl e, c, tr1))"

text \<open>\<^verbatim>\<open>__await__\<close>: awaiting the client is \<^verbatim>\<open>init\<close>.\<close>

definition client_await :: "env \<Rightarrow> client \<Rightarrow> trace \<Rightarrow> (exn + unit) \<times> client \<times> trace" where
  "client_await env c tr = client_init env c tr"

definition client_close :: "env \<Rightarrow> client \<Rightarrow> trace \<Rightarrow> (exn + unit) \<times> client \<times> trace" where
  "client_close env c tr =
     (case self_conn c of
        None \<Rightarrow> (Inr (), c, tr)
      | Some cn \<Rightarrow>
          (case conn_aclose env cn tr of
             (Inr _, tr1) \<Rightarrow>
               (Inr (), c\<lparr>self_conn := None\<rparr>,
                log INFO [Lit ''Closed Redis connection for namespace '', Str (namespace c)] tr1)
           | (Inl (RedisError s), tr1) \<Rightarrow>
               (Inr (), c\<lparr>self_conn := None\<rparr>,
                log ERROR [Lit ''Error closing Redis connection for '', Str (namespace c),
                           Lit '': '', Str s] tr1)
           | (Inl e, tr1) \<Rightarrow> (Inl e, c\<lparr>self_conn := None\<rparr>, tr1)))"

definition client_aenter :: "env \<Rightarrow> client \<Rightarrow> trace \<Rightarrow> (exn + unit) \<times> client \<times> trace" where
  "client_aenter env c tr =
     (case self_conn c of
        None \<Rightarrow> client_init env c tr
      | Some _ \<Rightarrow> (Inr (), c, tr))"

definition client_aexit :: "env \<Rightarrow> client \<Rightarrow> trace \<Rightarrow> (exn + unit) \<times> client \<times> trace" where
  "client_aexit env c tr =
     (case self_conn c of
        None \<Rightarrow> (Inr (), c, tr)
      | Some cn \<Rightarrow> (case conn_aclose env cn tr of (r, tr1) \<Rightarrow> (r, c, tr1)))"

text \<open>
  \<^verbatim>\<open>set\<close>: the \<^verbatim>\<open>try\<close> is inside the \<^verbatim>\<open>async with self._lock\<close>, so it covers the
  store call and neither the acquisition nor the release of the lock.
\<close>

definition set_body ::
  "env \<Rightarrow> client \<Rightarrow> string \<Rightarrow> pyval \<Rightarrow> int option \<Rightarrow> trace \<Rightarrow> (exn + unit) \<times> trace" where
  "set_body env c key v ex tr =
     (case self_conn c of
        None \<Rightarrow> (Inl NoneDeref, tr)
      | Some cn \<Rightarrow>
          (case conn_set env cn key v ex tr of
             (Inr _, tr1) \<Rightarrow>
               (Inr (), log DEBUG [Lit ''Set key '', Str key, Lit '' in namespace '',
                                   Str (namespace c)] tr1)
           | (Inl (RedisError s), tr1) \<Rightarrow>
               (Inr (), log ERROR [Lit ''Error setting key '', Str key, Lit '' in Redis for '',
                                   Str (namespace c), Lit '': '', Str s] tr1)
           | (Inl e, tr1) \<Rightarrow> (Inl e, tr1)))"

definition client_set ::
  "env \<Rightarrow> client \<Rightarrow> string \<Rightarrow> pyval \<Rightarrow> int option \<Rightarrow> trace \<Rightarrow> (exn + unit) \<times> client \<times> trace" where
  "client_set env c key v ex tr =
     (case self_lock c of
        None \<Rightarrow> (Inl NoneDeref, c, tr)
      | Some l \<Rightarrow>
          (case lock_aenter env l tr of
             (Inl e, tr1) \<Rightarrow> (Inl e, c, tr1)
           | (Inr _, tr1) \<Rightarrow>
               (case set_body env c key v ex tr1 of
                  (r, tr2) \<Rightarrow> (case leave r (lock_aexit env l tr2) of (r', tr3) \<Rightarrow> (r', c, tr3)))))"

definition client_get ::
  "env \<Rightarrow> client \<Rightarrow> string \<Rightarrow> trace \<Rightarrow> (exn + string option) \<times> client \<times> trace" where
  "client_get env c key tr =
     (case self_conn c of
        None \<Rightarrow> (Inl NoneDeref, c, tr)
      | Some cn \<Rightarrow>
          (case conn_get env cn key tr of
             (Inr v, tr1) \<Rightarrow>
               (Inr v, c, log DEBUG [Lit ''Got key '', Str key, Lit '' in namespace '',
                                     Str (namespace c)] tr1)
           | (Inl (RedisError s), tr1) \<Rightarrow>
               (Inr None, c, log ERROR [Lit ''Error getting key '', Str key, Lit '' in Redis for '',
                                        Str (namespace c), Lit '': '', Str s] tr1)
           | (Inl e, tr1) \<Rightarrow> (Inl e, c, tr1)))"

definition client_keys ::
  "env \<Rightarrow> client \<Rightarrow> string \<Rightarrow> trace \<Rightarrow> (exn + string list) \<times> client \<times> trace" where
  "client_keys env c pat tr =
     (case self_conn c of
        None \<Rightarrow> (Inl NoneDeref, c, tr)
      | Some cn \<Rightarrow>
          (case conn_keys env cn pat tr of
             (Inr ks, tr1) \<Rightarrow>
               (Inr ks, c, log DEBUG [Lit ''Got keys matching pattern '', Str pat,
                                      Lit '' in namespace '', Str (namespace c)] tr1)
           | (Inl (RedisError s), tr1) \<Rightarrow>
               (Inr [], c, log ERROR [Lit ''Error getting keys matching pattern '', Str pat,
                                      Lit '' in Redis for '', Str (namespace c),
                                      Lit '': '', Str s] tr1)
           | (Inl e, tr1) \<Rightarrow> (Inl e, c, tr1)))"

definition client_publish ::
  "env \<Rightarrow> client \<Rightarrow> string \<Rightarrow> pyval \<Rightarrow> trace \<Rightarrow> (exn + unit) \<times> client \<times> trace" where
  "client_publish env c ch m tr =
     (case self_conn c of
        None \<Rightarrow> (Inl NoneDeref, c, tr)
      | Some cn \<Rightarrow>
          (case conn_publish env cn ch m tr of
             (Inr _, tr1) \<Rightarrow>
               (Inr (), c, log DEBUG [Lit ''Published message to channel '', Str ch,
                                      Lit '' in namespace '', Str (namespace c)] tr1)
           | (Inl (RedisError s), tr1) \<Rightarrow>
               (Inr (), c, log ERROR [Lit ''Error publishing message to channel '', Str ch,
                                      Lit '' in Redis for '', Str (namespace c),
                                      Lit '': '', Str s] tr1)
           | (Inl e, tr1) \<Rightarrow> (Inl e, c, tr1)))"

text \<open>
  \<^verbatim>\<open>sadd\<close>: the answer of the store is awaited and dropped; the method has no
  \<^verbatim>\<open>return\<close>, so what the caller gets is \<^verbatim>\<open>None\<close> (\<open>Inr None\<close>).
\<close>

definition sadd_body ::
  "env \<Rightarrow> client \<Rightarrow> string \<Rightarrow> pyval list \<Rightarrow> trace \<Rightarrow> (exn + int option) \<times> trace" where
  "sadd_body env c key vs tr =
     (case self_conn c of
        None \<Rightarrow> (Inl NoneDeref, tr)
      | Some cn \<Rightarrow>
          (case conn_sadd env cn key vs tr of
             (Inr _, tr1) \<Rightarrow>
               (Inr None, log DEBUG [Lit ''Added '', Vals vs, Lit '' to set '', Str key,
                                     Lit '' in namespace '', Str (namespace c)] tr1)
           | (Inl (RedisError s), tr1) \<Rightarrow>
               (Inr None, log ERROR [Lit ''Error adding value to set '', Str key,
                                     Lit '' in Redis for '', Str (namespace c),
                                     Lit '': '', Str s] tr1)
           | (Inl e, tr1) \<Rightarrow> (Inl e, tr1)))"

definition client_sadd ::
  "env \<Rightarrow> client \<Rightarrow> string \<Rightarrow> pyval list \<Rightarrow> trace \<Rightarrow> (exn + int option) \<times> client \<times> trace" where
  "client_sadd env c key vs tr =
     (case self_lock c of
        None \<Rightarrow> (Inl NoneDeref, c, tr)
      | Some l \<Rightarrow>
          (case lock_aenter env l tr of
             (Inl e, tr1) \<Rightarrow> (Inl e, c, tr1)
           | (Inr _, tr1) \<Rightarrow>
               (case sadd_body env c key vs tr1 of
                  (r, tr2) \<Rightarrow> (case leave r (lock_aexit env l tr2) of (r', tr3) \<Rightarrow> (r', c, tr3)))))"

text \<open>
  \<^verbatim>\<open>subscribe\<close>. The loop over \<^verbatim>\<open>pubsub.listen()\<close> runs as long as the stream
  yields, so it takes fuel: the number of items it may still request. With the fuel used
  up the outcome is \<open>None\<close>: the call is still listening. \<open>Some r\<close> is the outcome of
  a loop that has ended.
\<close>

fun listen_loop ::
  "nat \<Rightarrow> env \<Rightarrow> client \<Rightarrow> conn \<Rightarrow> string \<Rightarrow> callback \<Rightarrow> trace \<Rightarrow> (exn + unit) option \<times> trace" where
  "listen_loop 0 env c cn channel cb tr = (None, tr)"
| "listen_loop (Suc n) env c cn channel cb tr =
     (case pubsub_next env cn tr of
        (Inl e, tr1) \<Rightarrow> (Some (Inl e), tr1)
      | (Inr None, tr1) \<Rightarrow> (Some (Inr ()), tr1)
      | (Inr (Some message), tr1) \<Rightarrow>
          (if mtype message = ''message'' then
             (case invoke cb (mdata message)
                     (log DEBUG [Lit ''Received message from '', Str channel,
                                 Lit '' in namespace '', Str (namespace c), Lit '': '',
                                 Val (mdata message)] tr1) of
                (Inl e, tr2) \<Rightarrow> (Some (Inl e), tr2)
              | (Inr _, tr2) \<Rightarrow> listen_loop n env c cn channel cb tr2)
           else listen_loop n env c cn channel cb tr1))"

text \<open>The block under \<^verbatim>\<open>async with self._conn.pubsub() as pubsub\<close>.\<close>

definition subscribe_body ::
  "nat \<Rightarrow> env \<Rightarrow> client \<Rightarrow> conn \<Rightarrow> string \<Rightarrow> callback \<Rightarrow> trace \<Rightarrow> (exn + unit) option \<times> trace" where
  "subscribe_body n env c cn channel cb tr =
     (case pubsub_subscribe_call env cn channel tr of
        (Inl e, tr1) \<Rightarrow> (Some (Inl e), tr1)
      | (Inr _, tr1) \<Rightarrow>
          listen_loop n env c cn channel cb
            (log INFO [Lit ''Subscribed to channel: '', Str channel,
                       Lit '' in namespace '', Str (namespace c)] tr1))"

text \<open>
  Building the pubsub object and entering it do not reach the store; leaving it closes
  it, which does. The \<^verbatim>\<open>except RedisError\<close> is around the whole \<^verbatim>\<open>async with\<close>.
\<close>

definition client_subscribe ::
  "nat \<Rightarrow> env \<Rightarrow> client \<Rightarrow> string \<Rightarrow> callback \<Rightarrow> trace \<Rightarrow> (exn + unit) option \<times> client \<times> trace" where
  "client_subscribe n env c channel cb tr =
     (case self_conn c of
        None \<Rightarrow> (Some (Inl NoneDeref), c, tr)
      | Some cn \<Rightarrow>
          (case subscribe_body n env c cn channel cb tr of
             (None, tr1) \<Rightarrow> (None, c, tr1)
           | (Some r, tr1) \<Rightarrow>
               (case leave r (pubsub_aexit env cn tr1) of
                  (Inl (RedisError s), tr2) \<Rightarrow>
                    (Some (Inr ()), c,
                     log ERROR [Lit ''Error subscribing to channel '', Str channel,
                                Lit '' in Redis for '', Str (namespace c), Lit '': '', Str s] tr2)
                | (r', tr2) \<Rightarrow> (Some r', c, tr2))))"

section \<open>The singleton metaclass\<close>

text \<open>
  \<open>instances\<close> is the registry of the metaclass (its entry for the manager class: the
  address of the instance and the object), \<open>managers\<close> every manager object built so
  far, \<open>next_id\<close> the next unused object identity.
\<close>

record process =
  instances :: "(nat \<times> manager) option"
  managers :: "(nat \<times> manager) list"
  next_id :: nat

definition initial_process :: process where
  "initial_process = \<lparr>instances = None, managers = [], next_id = 0\<rparr>"

text \<open>
  Modelled from the spec: \<^verbatim>\<open>SingletonMeta\<close> of \<^verbatim>\<open>utils.py\<close>, which is not among the
  source files. The spec: the manager is a process-wide singleton, created once, lazily,
  on first access; construction parameters are honoured only on the very first
  construction across the process; every later construction call silently reuses the
  first instance and ignores the new parameters. The call of the class is modelled so:
  with no instance registered it builds the object (a fresh identity for the manager,
  the next for the pool that \<^verbatim>\<open>__init__\<close> makes), registers and returns it; with
  one registered it returns that one and runs no \<^verbatim>\<open>__init__\<close>.
\<close>

definition RedisConnectionManager ::
  "string \<Rightarrow> int \<Rightarrow> int \<Rightarrow> int \<Rightarrow> process \<Rightarrow> (nat \<times> manager) \<times> process" where
  "RedisConnectionManager h p d mc ps =
     (case instances ps of
        Some inst \<Rightarrow> (inst, ps)
      | None \<Rightarrow>
          (let inst = (next_id ps, manager_init (Suc (next_id ps)) h p d mc)
           in (inst, ps\<lparr>instances := Some inst, managers := inst # managers ps,
                       next_id := next_id ps + 2\<rparr>)))"

text \<open>A run of constructions, each with its own arguments (host, port, db, max connections).\<close>

fun constructions ::
  "(string \<times> int \<times> int \<times> int) list \<Rightarrow> process \<Rightarrow> (nat \<times> manager) list \<times> process" where
  "constructions [] ps = ([], ps)"
| "constructions ((h, p, d, mc) # as) ps =
     (case RedisConnectionManager h p d mc ps of
        (m, ps1) \<Rightarrow> (case constructions as ps1 of (ms, ps2) \<Rightarrow> (m # ms, ps2)))"

section \<open>Reading a trace\<close>

definition new_events :: "trace \<Rightarrow> trace \<Rightarrow> trace" where
  "new_events tr tr' = drop (length tr) tr'"

text \<open>The library calls of a trace, in order, without their answers and without the log.\<close>

fun calls :: "trace \<Rightarrow> call list" where
  "calls [] = []"
| "calls (Ev c r # es) = c # calls es"
| "calls (Log lv msg # es) = calls es"

fun is_lock_call :: "call \<Rightarrow> bool" where
  "is_lock_call (LockEnter l) = True"
| "is_lock_call (LockExit l) = True"
| "is_lock_call _ = False"

text \<open>
  What a subscription does with the stream: \<open>Asked r\<close> is one request for the next
  item with its answer \<open>r\<close>, \<open>Called v\<close> one finished call of the callback on \<open>v\<close>.
\<close>

datatype step = Asked "exn + message option" | Called pyval

fun steps :: "trace \<Rightarrow> step list" where
  "steps [] = []"
| "steps (Ev (Listen cn) (Inl e) # es) = Asked (Inl e) # steps es"
| "steps (Ev (Listen cn) (Inr (RMsg m)) # es) = Asked (Inr m) # steps es"
| "steps (Ev (Callback v) r # es) = Called v # steps es"
| "steps (e # es) = steps es"

fun requests :: "step list \<Rightarrow> (exn + message option) list" where
  "requests [] = []"
| "requests (Asked r # ss) = r # requests ss"
| "requests (Called v # ss) = requests ss"

fun callbacks :: "step list \<Rightarrow> pyval list" where
  "callbacks [] = []"
| "callbacks (Asked r # ss) = callbacks ss"
| "callbacks (Called v # ss) = v # callbacks ss"

fun received :: "(exn + message option) list \<Rightarrow> message list" where
  "received [] = []"
| "received (Inr (Some m) # rs) = m # received rs"
| "received (r # rs) = received rs"

text \<open>
  The delivery the specification describes, as a function of the answers the stream
  gives: every item is requested in turn, and a data message (type \<open>message\<close>) is
  followed at once by one call of the callback on its payload, before the next request.
\<close>

fun in_turn :: "(exn + message option) list \<Rightarrow> step list" where
  "in_turn [] = []"
| "in_turn (Inr (Some m) # rs) =
     (if mtype m = ''message'' then Asked (Inr (Some m)) # Called (mdata m) # in_turn rs
      else Asked (Inr (Some m)) # in_turn rs)"
| "in_turn (r # rs) = Asked r # in_turn rs"

text \<open>
  The events of the loop of a subscription (requests and callback calls), and the ones
  after which the loop goes no further: a request that raised or met the end of the
  stream, a callback call that raised.
\<close>

fun loop_events :: "trace \<Rightarrow> trace" where
  "loop_events [] = []"
| "loop_events (Ev (Listen cn) r # es) = Ev (Listen cn) r # loop_events es"
| "loop_events (Ev (Callback v) r # es) = Ev (Callback v) r # loop_events es"
| "loop_events (e # es) = loop_events es"

fun stopping :: "event \<Rightarrow> bool" where
  "stopping (Ev (Listen cn) (Inl e)) = True"
| "stopping (Ev (Listen cn) (Inr (RMsg None))) = True"
| "stopping (Ev (Callback v) (Inl e)) = True"
| "stopping e = False"

text \<open>The messages of the store errors (\<open>RedisError\<close>) raised by the calls of a trace.\<close>

fun store_errors :: "trace \<Rightarrow> string list" where
  "store_errors [] = []"
| "store_errors (Ev c (Inl (RedisError s)) # es) = s # store_errors es"
| "store_errors (e # es) = store_errors es"

text \<open>The invariant as the specification words it, and the one the code keeps.\<close>

definition paired :: "client \<Rightarrow> bool" where
  "paired c = ((self_conn c = None) = (self_lock c = None))"

definition lock_with_conn :: "client \<Rightarrow> bool" where
  "lock_with_conn c = (self_conn c = None \<or> self_lock c \<noteq> None)"

section \<open>Concrete environments\<close>

text \<open>
  A store that answers every call. \<^verbatim>\<open>SADD\<close> answers the number of members that were
  not in the set before, counted from the earlier \<^verbatim>\<open>SADD\<close>s of the trace; the stream of
  a subscription is a confirmation, one data message, and the end.
\<close>

fun members :: "trace \<Rightarrow> string \<Rightarrow> pyval list" where
  "members [] k = []"
| "members (Ev (Sadd cn k' vs) (Inr r) # es) k =
     (if k' = k then vs @ members es k else members es k)"
| "members (e # es) k = members es k"

definition sadd_count :: "trace \<Rightarrow> string \<Rightarrow> pyval list \<Rightarrow> int" where
  "sadd_count tr k vs = int (length (remdups (filter (\<lambda>v. v \<notin> set (members tr k)) vs)))"

definition demo_stream :: "message option list" where
  "demo_stream =
     [Some \<lparr>mtype = ''subscribe'', mpattern = None, mchannel = ''news'', mdata = PInt 1\<rparr>,
      Some \<lparr>mtype = ''message'', mpattern = None, mchannel = ''news'', mdata = PStr ''x''\<rparr>,
      None]"

definition env_ok :: env where
  "env_ok =
     \<lparr>store_connect = (\<lambda>tr p. Inr 1),
      store_aclose = (\<lambda>tr cn. Inr ()),
      store_set = (\<lambda>tr cn k v ex. Inr ()),
      store_get = (\<lambda>tr cn k. Inr (Some ''1'')),
      store_keys = (\<lambda>tr cn pat. Inr [''a'']),
      store_publish = (\<lambda>tr cn ch m. Inr 1),
      store_sadd = (\<lambda>tr cn k vs. Inr (sadd_count tr k vs)),
      lock_acquire = (\<lambda>tr l. Inr ()),
      lock_release = (\<lambda>tr l. Inr ()),
      pubsub_subscribe = (\<lambda>tr cn ch. Inr ()),
      pubsub_listen =
        (\<lambda>tr cn. case drop (length (requests (steps tr))) demo_stream of
                    [] \<Rightarrow> Inr None | m # _ \<Rightarrow> Inr m),
      pubsub_aclose = (\<lambda>tr cn. Inr ()),
      pool_disconnect = (\<lambda>tr p. Inr ())\<rparr>"

text \<open>The store cannot be reached when the client connects.\<close>

definition env_down :: env where
  "env_down = env_ok\<lparr>store_connect := (\<lambda>tr p. Inl (RedisError ''Connection refused''))\<rparr>"

text \<open>The store is lost after the client has connected: every call to it raises.\<close>

definition env_lost :: env where
  "env_lost =
     \<lparr>store_connect = (\<lambda>tr p. Inr 1),
      store_aclose = (\<lambda>tr cn. Inl (RedisError ''Connection lost'')),
      store_set = (\<lambda>tr cn k v ex. Inl (RedisError ''Connection lost'')),
      store_get = (\<lambda>tr cn k. Inl (RedisError ''Connection lost'')),
      store_keys = (\<lambda>tr cn pat. Inl (RedisError ''Connection lost'')),
      store_publish = (\<lambda>tr cn ch m. Inl (RedisError ''Connection lost'')),
      store_sadd = (\<lambda>tr cn k vs. Inl (RedisError ''Connection lost'')),
      lock_acquire = (\<lambda>tr l. Inl (RedisError ''Connection lost'')),
      lock_release = (\<lambda>tr l. Inl (RedisError ''Connection lost'')),
      pubsub_subscribe = (\<lambda>tr cn ch. Inl (RedisError ''Connection lost'')),
      pubsub_listen = (\<lambda>tr cn. Inl (RedisError ''Connection lost'')),
      pubsub_aclose = (\<lambda>tr cn. Inl (RedisError ''Connection lost'')),
      pool_disconnect = (\<lambda>tr p. Inl (RedisError ''Connection lost''))\<rparr>"

text \<open>Only the data commands fail; the lock is acquired and released.\<close>

definition env_data_error :: env where
  "env_data_error =
     env_lost\<lparr>lock_acquire := (\<lambda>tr l. Inr ()), lock_release := (\<lambda>tr l. Inr ())\<rparr>"

text \<open>Closing the pubsub object fails.\<close>

definition env_exit_error :: env where
  "env_exit_error =
     env_ok\<lparr>pubsub_aclose := (\<lambda>tr cn. Inl (RedisError ''Timed out closing connection''))\<rparr>"

text \<open>Releasing the lock fails.\<close>

definition env_release_error :: env where
  "env_release_error =
     env_ok\<lparr>lock_release := (\<lambda>tr l. Inl (RedisError ''Cannot release a lock that is no longer owned''))\<rparr>"

definition cb_ok :: callback where
  "cb_ok tr v = Inr ()"

definition cb_raise :: callback where
  "cb_raise tr v = Inl (OtherError ''ValueError'')"

definition demo_manager :: manager where
  "demo_manager = manager_init 1 ''localhost'' 6379 0 10"

definition demo_client :: client where
  "demo_client = AsyncRedisClient ''app'' demo_manager"

text \<open>The client after a successful \<^verbatim>\<open>init\<close>, and the trace of that \<^verbatim>\<open>init\<close>.\<close>

definition ready_client :: client where
  "ready_client = fst (snd (client_init env_ok demo_client []))"

definition ready_trace :: trace where
  "ready_trace = snd (snd (client_init env_ok demo_client []))"

section \<open>The runs of a subscription\<close>

text \<open>
  The shapes a run of the loop can have, as the events it adds and its outcome:
  \<open>loop_run cn n r es\<close> for the loop with fuel \<open>n\<close>, \<open>body_run\<close> for the block
  under the \<^verbatim>\<open>async with\<close>, \<open>subscribe_run\<close> for the whole call on a client whose
  connection is \<open>cn\<close>. The functions above are shown to produce runs of these shapes,
  and what holds of every run is then shown by rule induction.
\<close>

inductive loop_run :: "conn \<Rightarrow> nat \<Rightarrow> (exn + unit) option \<Rightarrow> trace \<Rightarrow> bool" for cn where
  out_of_fuel: "loop_run cn 0 None []"
| listen_raises: "loop_run cn (Suc n) (Some (Inl e)) [Ev (Listen cn) (Inl e)]"
| stream_ends: "loop_run cn (Suc n) (Some (Inr ())) [Ev (Listen cn) (Inr (RMsg None))]"
| callback_raises:
    "mtype m = ''message'' \<Longrightarrow>
     loop_run cn (Suc n) (Some (Inl e))
       [Ev (Listen cn) (Inr (RMsg (Some m))), Log DEBUG lg, Ev (Callback (mdata m)) (Inl e)]"
| data_message:
    "mtype m = ''message'' \<Longrightarrow> loop_run cn n r es \<Longrightarrow>
     loop_run cn (Suc n) r
       (Ev (Listen cn) (Inr (RMsg (Some m))) # Log DEBUG lg #
        Ev (Callback (mdata m)) (Inr RUnit) # es)"
| control_message:
    "mtype m \<noteq> ''message'' \<Longrightarrow> loop_run cn n r es \<Longrightarrow>
     loop_run cn (Suc n) r (Ev (Listen cn) (Inr (RMsg (Some m))) # es)"

inductive body_run :: "conn \<Rightarrow> string \<Rightarrow> nat \<Rightarrow> (exn + unit) option \<Rightarrow> trace \<Rightarrow> bool"
  for cn ch where
  subscribe_raises: "body_run cn ch n (Some (Inl e)) [Ev (Subscribe cn ch) (Inl e)]"
| subscribed:
    "loop_run cn n r es \<Longrightarrow>
     body_run cn ch n r (Ev (Subscribe cn ch) (Inr RUnit) # Log INFO lg # es)"

inductive subscribe_run :: "conn \<Rightarrow> string \<Rightarrow> nat \<Rightarrow> (exn + unit) option \<Rightarrow> trace \<Rightarrow> bool"
  for cn ch where
  listening: "body_run cn ch n None es \<Longrightarrow> subscribe_run cn ch n None es"
| closed:
    "body_run cn ch n (Some r) es \<Longrightarrow> \<forall>s. r \<noteq> Inl (RedisError s) \<Longrightarrow>
     subscribe_run cn ch n (Some r) (es @ [Ev (PubsubExit cn) (Inr RUnit)])"
| body_error_caught:
    "body_run cn ch n (Some (Inl (RedisError s))) es \<Longrightarrow>
     subscribe_run cn ch n (Some (Inr ())) (es @ [Ev (PubsubExit cn) (Inr RUnit), Log ERROR lg])"
| close_error_caught:
    "body_run cn ch n (Some r) es \<Longrightarrow>
     subscribe_run cn ch n (Some (Inr ()))
       (es @ [Ev (PubsubExit cn) (Inl (RedisError s)), Log ERROR lg])"
| close_raises:
    "body_run cn ch n (Some r) es \<Longrightarrow> \<forall>s. e \<noteq> RedisError s \<Longrightarrow>
     subscribe_run cn ch n (Some (Inl e)) (es @ [Ev (PubsubExit cn) (Inl e)])"

section \<open>Basic facts\<close>

lemmas call_defs = Redis_def conn_aclose_def conn_set_def conn_get_def conn_keys_def
  conn_publish_def conn_sadd_def lock_aenter_def lock_aexit_def pubsub_subscribe_call_def
  pubsub_next_def pubsub_aexit_def invoke_def pool_disconnect_call_def perform_def log_def

lemmas demo_defs = demo_client_def demo_manager_def manager_init_def AsyncRedisClient_def
  get_pool_def RedisLock_def

lemma calls_append: "calls (xs @ ys) = calls xs @ calls ys"
  by (induction xs rule: calls.induct) simp_all

lemma steps_append: "steps (xs @ ys) = steps xs @ steps ys"
  by (induction xs rule: steps.induct) simp_all

lemma loop_events_append: "loop_events (xs @ ys) = loop_events xs @ loop_events ys"
  by (induction xs rule: loop_events.induct) simp_all

lemma ready_client_eq:
  "ready_client =
     \<lparr>namespace = ''app'',
      self_pool = Some \<lparr>pool_id = 1, host = ''localhost'', port = 6379, db = 0,
                        max_connections = 10, decode_responses = True\<rparr>,
      self_lock = Some \<lparr>lock_redis = 1, lock_name = ''app:lock''\<rparr>,
      self_conn = Some 1\<rparr>"
  by (simp add: ready_client_def client_init_def call_defs demo_defs env_ok_def)

lemma client_set_same: "fst (snd (client_set env c k v ex tr)) = c"
  by (simp add: client_set_def leave_def split: option.splits sum.splits prod.splits)

lemma client_sadd_same: "fst (snd (client_sadd env c k vs tr)) = c"
  by (simp add: client_sadd_def leave_def split: option.splits sum.splits prod.splits)

lemma client_get_same: "fst (snd (client_get env c k tr)) = c"
  by (simp add: client_get_def split: option.splits sum.splits prod.splits exn.splits)

lemma client_keys_same: "fst (snd (client_keys env c k tr)) = c"
  by (simp add: client_keys_def split: option.splits sum.splits prod.splits exn.splits)

lemma client_publish_same: "fst (snd (client_publish env c ch m tr)) = c"
  by (simp add: client_publish_def split: option.splits sum.splits prod.splits exn.splits)

lemma client_subscribe_same: "fst (snd (client_subscribe n env c ch cb tr)) = c"
  by (simp add: client_subscribe_def split: option.splits sum.splits prod.splits exn.splits)

lemma client_aexit_same: "fst (snd (client_aexit env c tr)) = c"
  by (simp add: client_aexit_def split: option.splits prod.splits)

lemma client_init_cases:
  "client_init env c tr = (r, c', tr') \<Longrightarrow>
     (r = Inr () \<and> (\<exists>cn. c' = c\<lparr>self_conn := Some cn,
          self_lock := Some (RedisLock cn (namespace c @ '':lock''))\<rparr>)) \<or>
     ((\<exists>e. r = Inl e) \<and> c' = c)"
  by (auto simp: client_init_def call_defs Let_def split: sum.splits exn.splits)

lemma client_close_fields:
  "self_conn (fst (snd (client_close env c tr))) = None \<and>
   self_lock (fst (snd (client_close env c tr))) = self_lock c"
  by (simp add: client_close_def split: option.splits sum.splits prod.splits exn.splits)

lemma init_keeps_lock_with_conn:
  "lock_with_conn c \<Longrightarrow> lock_with_conn (fst (snd (client_init env c tr)))"
  using client_init_cases [of env c tr "fst (client_init env c tr)"
      "fst (snd (client_init env c tr))" "snd (snd (client_init env c tr))"]
  by (auto simp: lock_with_conn_def)

lemma constructions_registered:
  "instances ps = Some inst \<Longrightarrow> constructions as ps = (replicate (length as) inst, ps)"
  by (induction as ps rule: constructions.induct) (simp_all add: RedisConnectionManager_def)

lemma ready_trace_eq:
  "ready_trace =
     [Ev (Connect (self_pool demo_client)) (Inr (RConn 1)),
      Log DEBUG [Lit ''Initialized Redis connection for namespace '', Str ''app'']]"
  by (simp add: ready_trace_def client_init_def call_defs demo_defs env_ok_def)

lemma client_aenter_cases:
  "client_aenter env c tr = (if self_conn c = None then client_init env c tr else (Inr (), c, tr))"
  by (simp add: client_aenter_def split: option.splits)

section \<open>The connection manager\<close>

text \<open>
  C8: at most one manager instance exists per process. Every construction after the first
  returns the first instance and ignores the new host, port, db and max-connections
  arguments, so managers constructed with different arguments hold the same pool: a run
  of constructions from the start of the process returns the instance of its first
  call every time, that instance holds the pool made from the first call's arguments,
  and no run leaves more than one manager object.
\<close>

theorem singleton_first_wins:
  "constructions ((h, p, d, mc) # rest) initial_process =
     (replicate (Suc (length rest)) (0, manager_init 1 h p d mc),
      \<lparr>instances = Some (0, manager_init 1 h p d mc),
       managers = [(0, manager_init 1 h p d mc)], next_id = 2\<rparr>) \<and>
   get_pool (manager_init 1 h p d mc) =
     Some \<lparr>pool_id = 1, host = h, port = p, db = d, max_connections = mc,
           decode_responses = True\<rparr> \<and>
   length (managers (snd (constructions args initial_process))) \<le> 1"
proof -
  have a: "constructions ((h, p, d, mc) # rest) initial_process =
     (replicate (Suc (length rest)) (0, manager_init 1 h p d mc),
      \<lparr>instances = Some (0, manager_init 1 h p d mc),
       managers = [(0, manager_init 1 h p d mc)], next_id = 2\<rparr>)" for h p d mc rest
    by (simp add: RedisConnectionManager_def initial_process_def constructions_registered Let_def)
  have b: "length (managers (snd (constructions args initial_process))) \<le> 1"
  proof (cases args)
    case Nil
    then show ?thesis by (simp add: initial_process_def)
  next
    case (Cons x xs)
    obtain h' p' d' mc' where "x = (h', p', d', mc')" by (cases x) auto
    with Cons a [of h' p' d' mc' xs] show ?thesis by simp
  qed
  from a b show ?thesis by (simp add: get_pool_def manager_init_def)
qed

theorem singleton_first_wins_witness:
  "(case constructions [(''localhost'', 6379, 0, 10), (''cache.internal'', 6380, 1, 50)]
           initial_process of
      (ms, ps) \<Rightarrow>
        map fst ms = [0, 0] \<and>
        map (get_pool \<circ> snd) ms =
          [Some \<lparr>pool_id = 1, host = ''localhost'', port = 6379, db = 0, max_connections = 10,
                  decode_responses = True\<rparr>,
           Some \<lparr>pool_id = 1, host = ''localhost'', port = 6379, db = 0, max_connections = 10,
                  decode_responses = True\<rparr>] \<and>
        length (managers ps) = 1)"
  using singleton_first_wins [where h = "''localhost''" and p = 6379 and d = 0 and mc = 10
      and rest = "[(''cache.internal'', 6380, 1, 50)]"]
  by (simp add: get_pool_def manager_init_def)

text \<open>
  C9: closing the manager disconnects the pool and leaves the pool reference set, so a
  second close disconnects again instead of doing nothing; a store error raised by the
  disconnect is logged and swallowed, the call returns normally.
\<close>

theorem manager_close_twice:
  assumes "pool m = Some p"
  shows "(case manager_close env m tr of
            (r1, m1, tr1) \<Rightarrow>
              pool m1 = Some p \<and> calls (new_events tr tr1) = [Disconnect p] \<and>
              (case manager_close env m1 tr1 of
                 (r2, m2, tr2) \<Rightarrow>
                   pool m2 = Some p \<and> calls (new_events tr1 tr2) = [Disconnect p])) \<and>
         (\<forall>s. pool_disconnect env tr p = Inl (RedisError s) \<longrightarrow>
              manager_close env m tr =
                (Inr (), m,
                 tr @ [Ev (Disconnect p) (Inl (RedisError s)),
                       Log ERROR [Lit ''Error closing Redis connection pool: '', Str s]]))"
proof -
  have one: "\<And>t. \<exists>r es. manager_close env m t = (r, m, t @ es) \<and> calls es = [Disconnect p]"
    using assms
    by (simp add: manager_close_def call_defs split: sum.splits exn.splits)
  obtain r1 es1 where c1: "manager_close env m tr = (r1, m, tr @ es1)" "calls es1 = [Disconnect p]"
    using one by blast
  obtain r2 es2 where c2: "manager_close env m (tr @ es1) = (r2, m, (tr @ es1) @ es2)"
    "calls es2 = [Disconnect p]"
    using one by blast
  have first: "(case manager_close env m tr of
            (r1, m1, tr1) \<Rightarrow>
              pool m1 = Some p \<and> calls (new_events tr tr1) = [Disconnect p] \<and>
              (case manager_close env m1 tr1 of
                 (r2, m2, tr2) \<Rightarrow>
                   pool m2 = Some p \<and> calls (new_events tr1 tr2) = [Disconnect p]))"
    using c1 c2 assms by (simp add: new_events_def)
  have second: "\<forall>s. pool_disconnect env tr p = Inl (RedisError s) \<longrightarrow>
              manager_close env m tr =
                (Inr (), m,
                 tr @ [Ev (Disconnect p) (Inl (RedisError s)),
                       Log ERROR [Lit ''Error closing Redis connection pool: '', Str s]])"
    using assms by (simp add: manager_close_def call_defs)
  from first second show ?thesis by blast
qed

theorem manager_close_twice_witness:
  "pool demo_manager =
     Some \<lparr>pool_id = 1, host = ''localhost'', port = 6379, db = 0, max_connections = 10,
           decode_responses = True\<rparr> \<and>
   (case manager_close env_lost demo_manager [] of
      (r1, m1, tr1) \<Rightarrow>
        r1 = Inr () \<and> m1 = demo_manager \<and>
        (case manager_close env_lost m1 tr1 of
           (r2, m2, tr2) \<Rightarrow>
             r2 = Inr () \<and> m2 = demo_manager \<and>
             calls tr2 = [Disconnect (the (pool demo_manager)),
                          Disconnect (the (pool demo_manager))]))"
  using manager_close_twice [where m = demo_manager and p = "the (pool demo_manager)"
      and env = env_lost and tr = "[]"]
  by (simp add: demo_defs env_lost_def manager_close_def call_defs new_events_def)

section \<open>The life cycle of the client\<close>

text \<open>
  C6: when \<^verbatim>\<open>init\<close> fails with a store error, the error is logged and raised again to
  the caller, and the client is as it was before the call: neither the connection nor
  the lock has been set, a client that was uninitialized stays so.
\<close>

theorem init_failure_keeps_state:
  assumes "store_connect env tr (self_pool c) = Inl (RedisError s)"
  shows "client_init env c tr =
           (Inl (RedisError s), c,
            tr @ [Ev (Connect (self_pool c)) (Inl (RedisError s)),
                  Log ERROR [Lit ''Error initializing Redis connection for '', Str (namespace c),
                             Lit '': '', Str s]])"
  using assms by (simp add: client_init_def call_defs)

theorem init_failure_keeps_state_witness:
  "store_connect env_down [] (self_pool demo_client) = Inl (RedisError ''Connection refused'') \<and>
   client_init env_down demo_client [] =
     (Inl (RedisError ''Connection refused''), demo_client,
      [Ev (Connect (self_pool demo_client)) (Inl (RedisError ''Connection refused'')),
       Log ERROR [Lit ''Error initializing Redis connection for '', Str ''app'',
                  Lit '': '', Str ''Connection refused'']]) \<and>
   self_conn demo_client = None \<and> self_lock demo_client = None"
  using init_failure_keeps_state [where env = env_down and tr = "[]" and c = demo_client
      and s = "''Connection refused''"]
  by (simp add: env_down_def env_ok_def demo_defs)

text \<open>
  C3, as stated: every operation keeps the connection and the lock both present or both
  absent, and after \<^verbatim>\<open>close\<close> both are absent again. It fails: \<^verbatim>\<open>close\<close> resets the
  connection only, nothing in the class ever resets the lock, so a ready client (both
  present) is left by \<^verbatim>\<open>close\<close> with no connection and its lock.
\<close>

theorem close_keeps_lock_counterexample:
  "paired ready_client \<and> \<not> paired (fst (snd (client_close env_ok ready_client ready_trace)))"
  by (simp add: paired_def client_close_def call_defs ready_client_eq env_ok_def)

text \<open>
  C3, amended: every operation of the client preserves that the lock is present whenever
  the connection is. After construction both are absent, after a successful
  \<^verbatim>\<open>init\<close> both are present, and after \<^verbatim>\<open>close\<close> the connection is absent while the
  lock reference is what it was before.
\<close>

theorem lock_with_conn_preserved:
  "(self_conn (AsyncRedisClient ns m) = None \<and> self_lock (AsyncRedisClient ns m) = None) \<and>
   (fst (client_init env c tr) = Inr () \<longrightarrow>
      self_conn (fst (snd (client_init env c tr))) \<noteq> None \<and>
      self_lock (fst (snd (client_init env c tr))) \<noteq> None) \<and>
   (self_conn (fst (snd (client_close env c tr))) = None \<and>
    self_lock (fst (snd (client_close env c tr))) = self_lock c) \<and>
   (lock_with_conn c \<longrightarrow>
      lock_with_conn (fst (snd (client_init env c tr))) \<and>
      lock_with_conn (fst (snd (client_await env c tr))) \<and>
      lock_with_conn (fst (snd (client_close env c tr))) \<and>
      lock_with_conn (fst (snd (client_aenter env c tr))) \<and>
      lock_with_conn (fst (snd (client_aexit env c tr))) \<and>
      lock_with_conn (fst (snd (client_set env c key v ex tr))) \<and>
      lock_with_conn (fst (snd (client_get env c key tr))) \<and>
      lock_with_conn (fst (snd (client_keys env c pat tr))) \<and>
      lock_with_conn (fst (snd (client_publish env c ch msg tr))) \<and>
      lock_with_conn (fst (snd (client_subscribe n env c ch cb tr))) \<and>
      lock_with_conn (fst (snd (client_sadd env c key vs tr))))"
proof -
  have fresh: "self_conn (AsyncRedisClient ns m) = None \<and> self_lock (AsyncRedisClient ns m) = None"
    by (simp add: AsyncRedisClient_def)
  have ready: "fst (client_init env c tr) = Inr () \<longrightarrow>
      self_conn (fst (snd (client_init env c tr))) \<noteq> None \<and>
      self_lock (fst (snd (client_init env c tr))) \<noteq> None"
    using client_init_cases [of env c tr "fst (client_init env c tr)"
      "fst (snd (client_init env c tr))" "snd (snd (client_init env c tr))"]
    by auto
  have closed: "self_conn (fst (snd (client_close env c tr))) = None \<and>
    self_lock (fst (snd (client_close env c tr))) = self_lock c"
    by (rule client_close_fields)
  have kept: "lock_with_conn (fst (snd (client_init env c tr))) \<and>
      lock_with_conn (fst (snd (client_await env c tr))) \<and>
      lock_with_conn (fst (snd (client_close env c tr))) \<and>
      lock_with_conn (fst (snd (client_aenter env c tr))) \<and>
      lock_with_conn (fst (snd (client_aexit env c tr))) \<and>
      lock_with_conn (fst (snd (client_set env c key v ex tr))) \<and>
      lock_with_conn (fst (snd (client_get env c key tr))) \<and>
      lock_with_conn (fst (snd (client_keys env c pat tr))) \<and>
      lock_with_conn (fst (snd (client_publish env c ch msg tr))) \<and>
      lock_with_conn (fst (snd (client_subscribe n env c ch cb tr))) \<and>
      lock_with_conn (fst (snd (client_sadd env c key vs tr)))" if inv: "lock_with_conn c"
  proof -
    have i: "lock_with_conn (fst (snd (client_init env c tr)))"
      using inv by (rule init_keeps_lock_with_conn)
    have cl: "lock_with_conn (fst (snd (client_close env c tr)))"
      using closed by (simp add: lock_with_conn_def)
    have en: "lock_with_conn (fst (snd (client_aenter env c tr)))"
      using i inv by (simp add: client_aenter_cases)
    show ?thesis
      using i cl en inv
      by (simp add: client_await_def client_aexit_same client_set_same client_get_same
          client_keys_same client_publish_same client_subscribe_same client_sadd_same)
  qed
  from fresh ready closed kept show ?thesis by blast
qed

theorem lock_with_conn_preserved_witness:
  "fst (client_init env_ok demo_client []) = Inr () \<and>
   self_conn demo_client = None \<and> self_lock demo_client = None \<and>
   self_conn ready_client \<noteq> None \<and> self_lock ready_client \<noteq> None \<and>
   lock_with_conn ready_client \<and>
   self_conn (fst (snd (client_close env_ok ready_client ready_trace))) = None \<and>
   self_lock (fst (snd (client_close env_ok ready_client ready_trace))) = self_lock ready_client \<and>
   lock_with_conn (fst (snd (client_close env_ok ready_client ready_trace))) \<and>
   lock_with_conn (fst (snd (client_aexit env_ok ready_client ready_trace))) \<and>
   lock_with_conn (fst (snd (client_set env_ok ready_client ''a'' (PStr ''1'') None ready_trace)))"
proof -
  have ok: "fst (client_init env_ok demo_client []) = Inr ()"
    by (simp add: client_init_def call_defs env_ok_def)
  have inv: "lock_with_conn ready_client"
    by (simp add: lock_with_conn_def ready_client_eq)
  have fresh: "self_conn demo_client = None \<and> self_lock demo_client = None"
    by (simp add: demo_defs)
  from ok inv fresh
    lock_with_conn_preserved [where env = env_ok and c = demo_client and tr = "[]"]
    lock_with_conn_preserved [where env = env_ok and c = ready_client and tr = ready_trace
      and key = "''a''" and v = "PStr ''1''" and ex = None]
  show ?thesis
    by (simp add: ready_client_def)
qed

text \<open>
  Closing: \<^verbatim>\<open>close\<close> on a client with a connection closes that connection and
  empties the reference, whatever the store answers; \<^verbatim>\<open>close\<close> on a client without
  one calls nothing and returns; leaving the scope closes the connection and keeps the
  client as it is.
\<close>

lemma close_ready:
  "self_conn c = Some cn \<Longrightarrow>
     self_conn (fst (snd (client_close env c tr))) = None \<and>
     calls (new_events tr (snd (snd (client_close env c tr)))) = [Aclose cn]"
  by (simp add: client_close_def call_defs new_events_def
      split: option.splits sum.splits prod.splits exn.splits)

lemma close_closed_noop:
  "self_conn c = None \<Longrightarrow> client_close env c tr = (Inr (), c, tr)"
  by (simp add: client_close_def)

lemma aexit_releases_keeps_reference:
  "self_conn c = Some cn \<Longrightarrow>
     client_aexit env c tr =
       (store_aclose env tr cn, c, tr @ [Ev (Aclose cn) (map_sum id (\<lambda>_. RUnit) (store_aclose env tr cn))])"
  by (simp add: client_aexit_def call_defs)

text \<open>
  C4: calling \<^verbatim>\<open>close\<close> or leaving the scope on a ready client releases the
  connection and sets the connection reference to empty, and \<^verbatim>\<open>close\<close> on a client
  that is already closed is a silent no-op that calls nothing and does not raise. The
  two statements about \<^verbatim>\<open>close\<close> hold (above). Leaving the scope releases the
  connection and does not empty the reference: \<^verbatim>\<open>__aexit__\<close> returns with the
  reference still set to the closed connection, where \<^verbatim>\<open>close\<close> has
  \<^verbatim>\<open>self._conn = None\<close> (``ensure the connection is marked as closed''). The code
  at a ready client and a store that closes without error:
\<close>

theorem aexit_keeps_connection_reference:
  "client_aexit env_ok ready_client ready_trace =
     (Inr (), ready_client, ready_trace @ [Ev (Aclose 1) (Inr RUnit)]) \<and>
   self_conn ready_client = Some 1"
  by (simp add: client_aexit_def call_defs ready_client_eq env_ok_def)

section \<open>The operations of the client\<close>

text \<open>No call of \<^verbatim>\<open>sadd\<close> returns an integer, whatever the store answers.\<close>

lemma sadd_never_returns_count: "fst (client_sadd env c key vs tr) \<noteq> Inr (Some n)"
  by (simp add: client_sadd_def sadd_body_def leave_def call_defs
      split: option.splits sum.splits prod.splits exn.splits)

text \<open>
  C1: on an initialized client and a store that succeeds, \<^verbatim>\<open>sadd\<close> returns the count
  of newly added members. The code does not: it awaits the store's answer and has no
  \<^verbatim>\<open>return\<close>, although it is annotated to return an integer and \<^verbatim>\<open>get\<close> and
  \<^verbatim>\<open>keys\<close> return what the store answered. Adding \<open>x\<close> and \<open>y\<close> to a new set, the
  store answers 2 and the caller gets \<^verbatim>\<open>None\<close>; adding \<open>x\<close> again, the store answers
  0 and the caller gets \<^verbatim>\<open>None\<close>.
\<close>

theorem sadd_drops_count:
  "(case client_sadd env_ok ready_client ''s'' [PStr ''x'', PStr ''y''] ready_trace of
      (r1, c1, tr1) \<Rightarrow>
        r1 = Inr None \<and>
        new_events ready_trace tr1 =
          [Ev (LockEnter \<lparr>lock_redis = 1, lock_name = ''app:lock''\<rparr>) (Inr RUnit),
           Ev (Sadd 1 ''s'' [PStr ''x'', PStr ''y'']) (Inr (RInt 2)),
           Log DEBUG [Lit ''Added '', Vals [PStr ''x'', PStr ''y''], Lit '' to set '', Str ''s'',
                      Lit '' in namespace '', Str ''app''],
           Ev (LockExit \<lparr>lock_redis = 1, lock_name = ''app:lock''\<rparr>) (Inr RUnit)] \<and>
        (case client_sadd env_ok c1 ''s'' [PStr ''x''] tr1 of
           (r2, c2, tr2) \<Rightarrow>
             r2 = Inr None \<and>
             new_events tr1 tr2 =
               [Ev (LockEnter \<lparr>lock_redis = 1, lock_name = ''app:lock''\<rparr>) (Inr RUnit),
                Ev (Sadd 1 ''s'' [PStr ''x'']) (Inr (RInt 0)),
                Log DEBUG [Lit ''Added '', Vals [PStr ''x''], Lit '' to set '', Str ''s'',
                           Lit '' in namespace '', Str ''app''],
                Ev (LockExit \<lparr>lock_redis = 1, lock_name = ''app:lock''\<rparr>) (Inr RUnit)]))"
  by (simp add: client_sadd_def sadd_body_def leave_def call_defs ready_client_eq ready_trace_eq
      env_ok_def sadd_count_def new_events_def demo_defs)

section \<open>Subscriptions\<close>

text \<open>Every call of the loop, of the block and of \<^verbatim>\<open>subscribe\<close> is a run.\<close>

lemma listen_loop_run:
  "\<exists>r es. listen_loop n env c cn ch cb tr = (r, tr @ es) \<and> loop_run cn n r es"
proof (induction n arbitrary: tr)
  case 0
  show ?case by (simp add: loop_run.out_of_fuel)
next
  case (Suc n)
  show ?case
  proof (cases "pubsub_listen env tr cn")
    case (Inl e)
    then show ?thesis by (simp add: call_defs loop_run.listen_raises)
  next
    case (Inr mo)
    show ?thesis
    proof (cases mo)
      case None
      with Inr show ?thesis by (simp add: call_defs loop_run.stream_ends)
    next
      case (Some m)
      show ?thesis
      proof (cases "mtype m = ''message''")
        case False
        obtain r es where
          "listen_loop n env c cn ch cb (tr @ [Ev (Listen cn) (Inr (RMsg (Some m)))]) =
             (r, (tr @ [Ev (Listen cn) (Inr (RMsg (Some m)))]) @ es)"
          and "loop_run cn n r es"
          using Suc.IH by blast
        with Inr Some False show ?thesis
          by (auto simp: call_defs intro: loop_run.control_message)
      next
        case True
        define lg where "lg = [Lit ''Received message from '', Str ch, Lit '' in namespace '',
          Str (namespace c), Lit '': '', Val (mdata m)]"
        define tr2 where "tr2 = tr @ [Ev (Listen cn) (Inr (RMsg (Some m))), Log DEBUG lg]"
        show ?thesis
        proof (cases "cb tr2 (mdata m)")
          case (Inl e)
          with Inr Some True show ?thesis
            using loop_run.callback_raises [of m cn n e lg]
            by (simp add: call_defs tr2_def lg_def)
        next
          case cbok: (Inr u)
          obtain r es where
            run: "listen_loop n env c cn ch cb (tr2 @ [Ev (Callback (mdata m)) (Inr RUnit)]) =
               (r, (tr2 @ [Ev (Callback (mdata m)) (Inr RUnit)]) @ es)"
            and lr: "loop_run cn n r es"
            using Suc.IH by blast
          from Inr Some True cbok run loop_run.data_message [OF True lr, of lg]
          show ?thesis
            by (auto simp: call_defs tr2_def lg_def)
        qed
      qed
    qed
  qed
qed


lemma subscribe_body_run:
  "\<exists>r es. subscribe_body n env c cn ch cb tr = (r, tr @ es) \<and> body_run cn ch n r es"
proof (cases "pubsub_subscribe env tr cn ch")
  case (Inl e)
  then show ?thesis
    by (simp add: subscribe_body_def call_defs body_run.subscribe_raises)
next
  case (Inr u)
  define lg where "lg = [Lit ''Subscribed to channel: '', Str ch, Lit '' in namespace '',
    Str (namespace c)]"
  define tr1 where "tr1 = tr @ [Ev (Subscribe cn ch) (Inr RUnit), Log INFO lg]"
  obtain r es where run: "listen_loop n env c cn ch cb tr1 = (r, tr1 @ es)"
    and lr: "loop_run cn n r es"
    using listen_loop_run by blast
  from Inr run body_run.subscribed [OF lr, of ch lg] show ?thesis
    by (auto simp: subscribe_body_def call_defs tr1_def lg_def)
qed

lemma client_subscribe_run:
  assumes "self_conn c = Some cn"
  shows "\<exists>r es. client_subscribe n env c ch cb tr = (r, c, tr @ es) \<and> subscribe_run cn ch n r es"
proof -
  obtain r0 es0 where body: "subscribe_body n env c cn ch cb tr = (r0, tr @ es0)"
    and br: "body_run cn ch n r0 es0"
    using subscribe_body_run by blast
  show ?thesis
  proof (cases r0)
    case None
    with assms body br show ?thesis
      by (auto simp: client_subscribe_def intro: subscribe_run.listening)
  next
    case (Some r)
    note r0 = Some
    show ?thesis
    proof (cases "pubsub_aclose env (tr @ es0) cn")
      case (Inr u)
      show ?thesis
      proof (cases "\<exists>s. r = Inl (RedisError s)")
        case True
        then obtain s where "r = Inl (RedisError s)" by blast
        with assms body br r0 Inr
          subscribe_run.body_error_caught [of cn ch n s es0]
        show ?thesis
          by (auto simp: client_subscribe_def call_defs leave_def)
      next
        case False
        with assms body br r0 Inr subscribe_run.closed [of cn ch n r es0]
        show ?thesis
          by (auto simp: client_subscribe_def call_defs leave_def
              split: sum.splits exn.splits)
      qed
    next
      case (Inl e)
      show ?thesis
      proof (cases e)
        case (RedisError s)
        with assms body br r0 Inl subscribe_run.close_error_caught [of cn ch n r es0 s]
        show ?thesis
          by (auto simp: client_subscribe_def call_defs leave_def)
      next
        case NoneDeref
        with assms body br r0 Inl subscribe_run.close_raises [of cn ch n r es0 e]
        show ?thesis
          by (auto simp: client_subscribe_def call_defs leave_def)
      next
        case (OtherError s)
        with assms body br r0 Inl subscribe_run.close_raises [of cn ch n r es0 e]
        show ?thesis
          by (auto simp: client_subscribe_def call_defs leave_def)
      qed
    qed
  qed
qed

lemma client_subscribe_closed:
  "self_conn c = None \<Longrightarrow> client_subscribe n env c ch cb tr = (Some (Inl NoneDeref), c, tr)"
  by (simp add: client_subscribe_def)

text \<open>What holds of every run.\<close>

lemma requests_in_turn: "requests (in_turn rs) = rs"
  by (induction rs rule: in_turn.induct) simp_all

lemma callbacks_in_turn:
  "callbacks (in_turn rs) = map mdata (filter (\<lambda>m. mtype m = ''message'') (received rs))"
  by (induction rs rule: in_turn.induct) simp_all

lemma loop_run_in_turn: "loop_run cn n r es \<Longrightarrow> in_turn (requests (steps es)) = steps es"
  by (induction rule: loop_run.induct) simp_all

lemma loop_run_no_lock: "loop_run cn n r es \<Longrightarrow> filter is_lock_call (calls es) = []"
  by (induction rule: loop_run.induct) simp_all

lemma body_run_steps:
  "body_run cn ch n r es \<Longrightarrow>
     in_turn (requests (steps es)) = steps es \<and> filter is_lock_call (calls es) = []"
  by (induction rule: body_run.induct) (simp_all add: loop_run_in_turn loop_run_no_lock)

lemma subscribe_run_steps:
  "subscribe_run cn ch n r es \<Longrightarrow>
     in_turn (requests (steps es)) = steps es \<and> filter is_lock_call (calls es) = []"
  by (induction rule: subscribe_run.induct)
     (simp_all add: body_run_steps steps_append calls_append)

text \<open>
  The loop goes on: with the subscription made, a call that is still listening has used
  all its fuel on requests and met nothing that stops the loop, and a call that has
  ended has its one stopping event as the last event of the loop.
\<close>

lemma loop_run_progress:
  "loop_run cn n r es \<Longrightarrow>
     (r = None \<longrightarrow> filter stopping (loop_events es) = [] \<and> length (requests (steps es)) = n) \<and>
     (r \<noteq> None \<longrightarrow> loop_events es \<noteq> [] \<and>
        filter stopping (loop_events es) = [last (loop_events es)])"
  by (induction rule: loop_run.induct) auto

lemma body_run_progress:
  "body_run cn ch n r es \<Longrightarrow> Ev (Subscribe cn ch) (Inr RUnit) \<in> set es \<Longrightarrow>
     (r = None \<longrightarrow> filter stopping (loop_events es) = [] \<and> length (requests (steps es)) = n) \<and>
     (r \<noteq> None \<longrightarrow> loop_events es \<noteq> [] \<and>
        filter stopping (loop_events es) = [last (loop_events es)])"
proof (induction rule: body_run.induct)
  case (subscribe_raises n e)
  then show ?case by simp
next
  case (subscribed n r es lg)
  from loop_run_progress [OF subscribed(1)] show ?case by simp
qed

lemma subscribe_run_progress:
  assumes "subscribe_run cn ch n r es" and "Ev (Subscribe cn ch) (Inr RUnit) \<in> set es"
  shows "(r = None \<longrightarrow> filter stopping (loop_events es) = [] \<and> length (requests (steps es)) = n) \<and>
     (r \<noteq> None \<longrightarrow> loop_events es \<noteq> [] \<and>
        filter stopping (loop_events es) = [last (loop_events es)])"
  using assms
proof (induction rule: subscribe_run.induct)
  case (listening n es)
  then show ?case using body_run_progress [of cn ch n None es] by simp
next
  case (closed n r es)
  then show ?case using body_run_progress [of cn ch n "Some r" es]
    by (simp add: loop_events_append steps_append)
next
  case (body_error_caught n s es lg)
  then show ?case using body_run_progress [of cn ch n "Some (Inl (RedisError s))" es]
    by (simp add: loop_events_append steps_append)
next
  case (close_error_caught n r es s lg)
  then show ?case using body_run_progress [of cn ch n "Some r" es]
    by (simp add: loop_events_append steps_append)
next
  case (close_raises n r es e)
  then show ?case using body_run_progress [of cn ch n "Some r" es]
    by (simp add: loop_events_append steps_append)
qed

lemma subscribe_body_first:
  "\<exists>es. snd (subscribe_body n env c cn ch cb tr) =
          tr @ Ev (Subscribe cn ch) (map_sum id (\<lambda>_. RUnit) (pubsub_subscribe env tr cn ch)) # es"
proof (cases "pubsub_subscribe env tr cn ch")
  case (Inl e)
  then show ?thesis by (simp add: subscribe_body_def call_defs)
next
  case (Inr u)
  define tr1 where "tr1 = tr @ [Ev (Subscribe cn ch) (Inr RUnit),
      Log INFO [Lit ''Subscribed to channel: '', Str ch, Lit '' in namespace '', Str (namespace c)]]"
  obtain r es where "listen_loop n env c cn ch cb tr1 = (r, tr1 @ es)"
    using listen_loop_run by blast
  with Inr show ?thesis
    by (simp add: subscribe_body_def call_defs tr1_def)
qed

lemma client_subscribe_first:
  assumes "self_conn c = Some cn"
  shows "\<exists>es. snd (snd (client_subscribe n env c ch cb tr)) =
          tr @ Ev (Subscribe cn ch) (map_sum id (\<lambda>_. RUnit) (pubsub_subscribe env tr cn ch)) # es"
proof -
  obtain es where b: "snd (subscribe_body n env c cn ch cb tr) =
      tr @ Ev (Subscribe cn ch) (map_sum id (\<lambda>_. RUnit) (pubsub_subscribe env tr cn ch)) # es"
    using subscribe_body_first by blast
  obtain r0 tr0 where sb: "subscribe_body n env c cn ch cb tr = (r0, tr0)"
    by (cases "subscribe_body n env c cn ch cb tr")
  with b have tr0: "tr0 =
      tr @ Ev (Subscribe cn ch) (map_sum id (\<lambda>_. RUnit) (pubsub_subscribe env tr cn ch)) # es"
    by simp
  show ?thesis
    using assms sb tr0
    by (auto simp: client_subscribe_def call_defs leave_def
        split: option.splits sum.splits exn.splits prod.splits)
qed

lemma subscribe_progress:
  assumes "self_conn c = Some cn" and "pubsub_subscribe env tr cn ch = Inr ()"
  shows "(fst (client_subscribe n env c ch cb tr) = None \<longrightarrow>
           filter stopping
             (loop_events (new_events tr (snd (snd (client_subscribe n env c ch cb tr))))) = [] \<and>
           length (requests (steps
             (new_events tr (snd (snd (client_subscribe n env c ch cb tr)))))) = n) \<and>
         (fst (client_subscribe n env c ch cb tr) \<noteq> None \<longrightarrow>
           loop_events (new_events tr (snd (snd (client_subscribe n env c ch cb tr)))) \<noteq> [] \<and>
           filter stopping
             (loop_events (new_events tr (snd (snd (client_subscribe n env c ch cb tr))))) =
             [last (loop_events
                (new_events tr (snd (snd (client_subscribe n env c ch cb tr)))))])"
proof -
  obtain r es where run: "client_subscribe n env c ch cb tr = (r, c, tr @ es)"
    and sr: "subscribe_run cn ch n r es"
    using client_subscribe_run [OF assms(1)] by blast
  obtain es' where "snd (snd (client_subscribe n env c ch cb tr)) =
      tr @ Ev (Subscribe cn ch) (map_sum id (\<lambda>_. RUnit) (pubsub_subscribe env tr cn ch)) # es'"
    using client_subscribe_first [OF assms(1)] by blast
  with run assms(2) have "Ev (Subscribe cn ch) (Inr RUnit) \<in> set es"
    by simp
  from subscribe_run_progress [OF sr this] run show ?thesis
    by (simp add: new_events_def)
qed

text \<open>
  C7: for every incoming message stream, \<^verbatim>\<open>subscribe\<close> calls the callback on the
  payload exactly for the messages whose type is a data message, never for a control
  message, one after the other in arrival order, each call finished before the next
  message is requested. In the events a call of \<^verbatim>\<open>subscribe\<close> adds (with any fuel, so
  also for a stream that never ends), the requests and the callback calls are exactly
  the in-turn delivery of the answers the stream gave, and the payloads the callback
  was called on are the payloads of the data messages received, in order. And no
  message of the stream is left out: once the subscription is made, the loop requests
  item after item and goes no further only at the end of the stream, at a request that
  raises or at a callback call that raises; with fuel \<open>n\<close> a call still listening has
  made \<open>n\<close> requests.
\<close>

theorem callbacks_in_arrival_order:
  "steps (new_events tr (snd (snd (client_subscribe n env c ch cb tr)))) =
     in_turn (requests (steps (new_events tr (snd (snd (client_subscribe n env c ch cb tr)))))) \<and>
   callbacks (steps (new_events tr (snd (snd (client_subscribe n env c ch cb tr))))) =
     map mdata (filter (\<lambda>m. mtype m = ''message'')
       (received (requests (steps (new_events tr (snd (snd (client_subscribe n env c ch cb tr)))))))) \<and>
   (self_conn c = Some cn \<and> pubsub_subscribe env tr cn ch = Inr () \<longrightarrow>
      (fst (client_subscribe n env c ch cb tr) = None \<longrightarrow>
         filter stopping
           (loop_events (new_events tr (snd (snd (client_subscribe n env c ch cb tr))))) = [] \<and>
         length (requests (steps
           (new_events tr (snd (snd (client_subscribe n env c ch cb tr)))))) = n) \<and>
      (fst (client_subscribe n env c ch cb tr) \<noteq> None \<longrightarrow>
         loop_events (new_events tr (snd (snd (client_subscribe n env c ch cb tr)))) \<noteq> [] \<and>
         filter stopping
           (loop_events (new_events tr (snd (snd (client_subscribe n env c ch cb tr))))) =
           [last (loop_events
              (new_events tr (snd (snd (client_subscribe n env c ch cb tr)))))]))"
proof -
  define es where "es = new_events tr (snd (snd (client_subscribe n env c ch cb tr)))"
  have turn: "in_turn (requests (steps es)) = steps es"
  proof (cases "self_conn c")
    case None
    then show ?thesis by (simp add: es_def client_subscribe_closed new_events_def)
  next
    case (Some cn)
    then obtain r es' where "client_subscribe n env c ch cb tr = (r, c, tr @ es')"
      and "subscribe_run cn ch n r es'"
      using client_subscribe_run by blast
    then show ?thesis
      using subscribe_run_steps [of cn ch n r es'] by (simp add: es_def new_events_def)
  qed
  have "callbacks (steps es) = callbacks (in_turn (requests (steps es)))"
    by (simp only: turn)
  then have cbs: "callbacks (steps es) =
      map mdata (filter (\<lambda>m. mtype m = ''message'') (received (requests (steps es))))"
    by (simp only: callbacks_in_turn)
  have progress: "self_conn c = Some cn \<and> pubsub_subscribe env tr cn ch = Inr () \<longrightarrow>
      (fst (client_subscribe n env c ch cb tr) = None \<longrightarrow>
         filter stopping (loop_events es) = [] \<and> length (requests (steps es)) = n) \<and>
      (fst (client_subscribe n env c ch cb tr) \<noteq> None \<longrightarrow>
         loop_events es \<noteq> [] \<and> filter stopping (loop_events es) = [last (loop_events es)])"
    unfolding es_def using subscribe_progress [of c cn env tr ch n cb] by blast
  from turn [symmetric] cbs progress show ?thesis
    unfolding es_def by (intro conjI)
qed

theorem callbacks_in_arrival_order_witness:
  "self_conn ready_client = Some 1 \<and> pubsub_subscribe env_ok ready_trace 1 ''news'' = Inr () \<and>
   fst (client_subscribe (Suc (Suc (Suc 0))) env_ok ready_client ''news'' cb_ok ready_trace) =
     Some (Inr ()) \<and>
   steps (new_events ready_trace
      (snd (snd (client_subscribe (Suc (Suc (Suc 0))) env_ok ready_client ''news'' cb_ok
                   ready_trace)))) =
     [Asked (Inr (Some \<lparr>mtype = ''subscribe'', mpattern = None, mchannel = ''news'',
                         mdata = PInt 1\<rparr>)),
      Asked (Inr (Some \<lparr>mtype = ''message'', mpattern = None, mchannel = ''news'',
                         mdata = PStr ''x''\<rparr>)),
      Called (PStr ''x''),
      Asked (Inr None)] \<and>
   callbacks (steps (new_events ready_trace
      (snd (snd (client_subscribe (Suc (Suc (Suc 0))) env_ok ready_client ''news'' cb_ok
                   ready_trace))))) = [PStr ''x''] \<and>
   filter stopping (loop_events (new_events ready_trace
      (snd (snd (client_subscribe (Suc (Suc (Suc 0))) env_ok ready_client ''news'' cb_ok
                   ready_trace))))) = [Ev (Listen 1) (Inr (RMsg None))] \<and>
   fst (client_subscribe (Suc (Suc 0)) env_ok ready_client ''news'' cb_ok ready_trace) = None \<and>
   length (requests (steps (new_events ready_trace
      (snd (snd (client_subscribe (Suc (Suc 0)) env_ok ready_client ''news'' cb_ok
                   ready_trace)))))) = Suc (Suc 0)"
proof -
  have ready: "self_conn ready_client = Some 1"
    by (simp add: ready_client_eq)
  have subscribed: "pubsub_subscribe env_ok ready_trace 1 ''news'' = Inr ()"
    by (simp add: env_ok_def)
  have ended: "fst (client_subscribe (Suc (Suc (Suc 0))) env_ok ready_client ''news'' cb_ok
                      ready_trace) = Some (Inr ())"
    by (simp add: client_subscribe_def subscribe_body_def call_defs leave_def
        ready_client_eq ready_trace_eq env_ok_def demo_stream_def cb_ok_def demo_defs)
  have listening: "fst (client_subscribe (Suc (Suc 0)) env_ok ready_client ''news'' cb_ok
                      ready_trace) = None"
    by (simp add: client_subscribe_def subscribe_body_def call_defs leave_def
        ready_client_eq ready_trace_eq env_ok_def demo_stream_def cb_ok_def demo_defs)
  have last_event: "last (loop_events (new_events ready_trace
      (snd (snd (client_subscribe (Suc (Suc (Suc 0))) env_ok ready_client ''news'' cb_ok
                   ready_trace))))) = Ev (Listen 1) (Inr (RMsg None))"
    by (simp add: client_subscribe_def subscribe_body_def call_defs leave_def new_events_def
        ready_client_eq ready_trace_eq env_ok_def demo_stream_def cb_ok_def demo_defs)
  note three = callbacks_in_arrival_order [where n = "Suc (Suc (Suc 0))" and env = env_ok
      and c = ready_client and ch = "''news''" and cb = cb_ok and tr = ready_trace and cn = 1]
  note two = callbacks_in_arrival_order [where n = "Suc (Suc 0)" and env = env_ok
      and c = ready_client and ch = "''news''" and cb = cb_ok and tr = ready_trace and cn = 1]
  have st: "steps (new_events ready_trace
      (snd (snd (client_subscribe (Suc (Suc (Suc 0))) env_ok ready_client ''news'' cb_ok
                   ready_trace)))) =
     [Asked (Inr (Some \<lparr>mtype = ''subscribe'', mpattern = None, mchannel = ''news'',
                         mdata = PInt 1\<rparr>)),
      Asked (Inr (Some \<lparr>mtype = ''message'', mpattern = None, mchannel = ''news'',
                         mdata = PStr ''x''\<rparr>)),
      Called (PStr ''x''),
      Asked (Inr None)]"
    by (simp add: client_subscribe_def subscribe_body_def call_defs leave_def new_events_def
        ready_client_eq ready_trace_eq env_ok_def demo_stream_def cb_ok_def demo_defs)
  from three st have cbs: "callbacks (steps (new_events ready_trace
      (snd (snd (client_subscribe (Suc (Suc (Suc 0))) env_ok ready_client ''news'' cb_ok
                   ready_trace))))) = [PStr ''x'']"
    by simp
  from three ready subscribed ended last_event
  have stop: "filter stopping (loop_events (new_events ready_trace
      (snd (snd (client_subscribe (Suc (Suc (Suc 0))) env_ok ready_client ''news'' cb_ok
                   ready_trace))))) = [Ev (Listen 1) (Inr (RMsg None))]"
    by simp
  from two ready subscribed listening
  have len: "length (requests (steps (new_events ready_trace
      (snd (snd (client_subscribe (Suc (Suc 0)) env_ok ready_client ''news'' cb_ok
                   ready_trace)))))) = Suc (Suc 0)"
    by simp
  from ready subscribed ended st cbs stop listening len show ?thesis
    by (intro conjI)
qed

section \<open>The namespace lock\<close>

text \<open>
  A successful \<^verbatim>\<open>init\<close> leaves a connection and a lock on that connection whose
  name is the namespace followed by \<open>:lock\<close>. The library calls of each operation
  on such a client follow.
\<close>

lemma init_makes_ready:
  "fst (client_init env c tr) = Inr () \<Longrightarrow>
     \<exists>cn. self_conn (fst (snd (client_init env c tr))) = Some cn \<and>
          self_lock (fst (snd (client_init env c tr))) =
            Some \<lparr>lock_redis = cn, lock_name = namespace c @ '':lock''\<rparr> \<and>
          namespace (fst (snd (client_init env c tr))) = namespace c"
  by (auto simp: client_init_def call_defs RedisLock_def Let_def split: sum.splits exn.splits)

lemma set_calls:
  assumes "self_conn c = Some cn" and "self_lock c = Some l"
  shows "calls (new_events tr (snd (snd (client_set env c key v ex tr)))) =
           (if lock_acquire env tr l = Inr () then [LockEnter l, Set cn key v ex, LockExit l]
            else [LockEnter l])"
  using assms
  by (auto simp: client_set_def set_body_def leave_def call_defs new_events_def
      split: sum.splits exn.splits prod.splits)

lemma sadd_calls:
  assumes "self_conn c = Some cn" and "self_lock c = Some l"
  shows "calls (new_events tr (snd (snd (client_sadd env c key vs tr)))) =
           (if lock_acquire env tr l = Inr () then [LockEnter l, Sadd cn key vs, LockExit l]
            else [LockEnter l])"
  using assms
  by (auto simp: client_sadd_def sadd_body_def leave_def call_defs new_events_def
      split: sum.splits exn.splits prod.splits)

lemma get_calls:
  "self_conn c = Some cn \<Longrightarrow>
     calls (new_events tr (snd (snd (client_get env c key tr)))) = [Get cn key]"
  by (auto simp: client_get_def call_defs new_events_def split: sum.splits exn.splits)

lemma keys_calls:
  "self_conn c = Some cn \<Longrightarrow>
     calls (new_events tr (snd (snd (client_keys env c pat tr)))) = [Keys cn pat]"
  by (auto simp: client_keys_def call_defs new_events_def split: sum.splits exn.splits)

lemma publish_calls:
  "self_conn c = Some cn \<Longrightarrow>
     calls (new_events tr (snd (snd (client_publish env c ch msg tr)))) = [Publish cn ch msg]"
  by (auto simp: client_publish_def call_defs new_events_def split: sum.splits exn.splits)

lemma subscribe_no_lock:
  "filter is_lock_call (calls (new_events tr (snd (snd (client_subscribe n env c ch cb tr))))) = []"
proof (cases "self_conn c")
  case None
  then show ?thesis by (simp add: client_subscribe_closed new_events_def)
next
  case (Some cn)
  then obtain r es where "client_subscribe n env c ch cb tr = (r, c, tr @ es)"
    and "subscribe_run cn ch n r es"
    using client_subscribe_run by blast
  then show ?thesis
    using subscribe_run_steps [of cn ch n r es] by (simp add: new_events_def)
qed

text \<open>
  C5, as stated: every call of \<^verbatim>\<open>set\<close> or \<^verbatim>\<open>sadd\<close> acquires the namespace lock,
  performs one store operation and releases the lock. It fails when the acquisition
  raises: with the store lost after \<^verbatim>\<open>init\<close>, the only call \<^verbatim>\<open>set\<close> and \<^verbatim>\<open>sadd\<close>
  make is the acquisition, no store operation and no release follow. It also fails on a
  client that has been closed, which keeps its lock and has no connection: \<^verbatim>\<open>set\<close>
  acquires and releases the lock around no store operation and raises.
\<close>

theorem lock_not_acquired_counterexample:
  "self_conn ready_client = Some 1 \<and>
   self_lock ready_client = Some \<lparr>lock_redis = 1, lock_name = ''app:lock''\<rparr> \<and>
   calls (new_events ready_trace
     (snd (snd (client_set env_lost ready_client ''a'' (PStr ''1'') None ready_trace)))) =
     [LockEnter \<lparr>lock_redis = 1, lock_name = ''app:lock''\<rparr>] \<and>
   calls (new_events ready_trace
     (snd (snd (client_sadd env_lost ready_client ''s'' [PStr ''x''] ready_trace)))) =
     [LockEnter \<lparr>lock_redis = 1, lock_name = ''app:lock''\<rparr>] \<and>
   client_set env_ok (fst (snd (client_close env_ok ready_client ready_trace))) ''a'' (PStr ''1'')
       None [] =
     (Inl NoneDeref, fst (snd (client_close env_ok ready_client ready_trace)),
      [Ev (LockEnter \<lparr>lock_redis = 1, lock_name = ''app:lock''\<rparr>) (Inr RUnit),
       Ev (LockExit \<lparr>lock_redis = 1, lock_name = ''app:lock''\<rparr>) (Inr RUnit)])"
  by (simp add: client_set_def client_sadd_def set_body_def client_close_def leave_def call_defs
      new_events_def ready_client_eq env_lost_def env_ok_def)

text \<open>
  C5, amended: on a ready client (a connection, and the lock on it that \<^verbatim>\<open>init\<close>
  made), every call of \<^verbatim>\<open>set\<close> or \<^verbatim>\<open>sadd\<close> first calls the acquisition of the
  namespace lock whose key is exactly the namespace followed by \<open>:lock\<close>; when the
  lock is acquired, it performs one store operation and releases the lock afterwards,
  also when the store operation errors; when the acquisition raises, it calls nothing
  else. \<^verbatim>\<open>get\<close>, \<^verbatim>\<open>keys\<close>, \<^verbatim>\<open>publish\<close> and \<^verbatim>\<open>subscribe\<close> never acquire the lock.
\<close>

theorem lock_discipline:
  assumes "self_conn c = Some cn"
    and "self_lock c = Some \<lparr>lock_redis = cn, lock_name = namespace c @ '':lock''\<rparr>"
  shows "calls (new_events tr (snd (snd (client_set env c key v ex tr)))) =
           (if lock_acquire env tr \<lparr>lock_redis = cn, lock_name = namespace c @ '':lock''\<rparr> = Inr ()
            then [LockEnter \<lparr>lock_redis = cn, lock_name = namespace c @ '':lock''\<rparr>,
                  Set cn key v ex,
                  LockExit \<lparr>lock_redis = cn, lock_name = namespace c @ '':lock''\<rparr>]
            else [LockEnter \<lparr>lock_redis = cn, lock_name = namespace c @ '':lock''\<rparr>]) \<and>
         calls (new_events tr (snd (snd (client_sadd env c key vs tr)))) =
           (if lock_acquire env tr \<lparr>lock_redis = cn, lock_name = namespace c @ '':lock''\<rparr> = Inr ()
            then [LockEnter \<lparr>lock_redis = cn, lock_name = namespace c @ '':lock''\<rparr>,
                  Sadd cn key vs,
                  LockExit \<lparr>lock_redis = cn, lock_name = namespace c @ '':lock''\<rparr>]
            else [LockEnter \<lparr>lock_redis = cn, lock_name = namespace c @ '':lock''\<rparr>]) \<and>
         calls (new_events tr (snd (snd (client_get env c key tr)))) = [Get cn key] \<and>
         calls (new_events tr (snd (snd (client_keys env c pat tr)))) = [Keys cn pat] \<and>
         calls (new_events tr (snd (snd (client_publish env c ch msg tr)))) = [Publish cn ch msg] \<and>
         filter is_lock_call
           (calls (new_events tr (snd (snd (client_subscribe n env c ch cb tr))))) = []"
  using set_calls [OF assms] sadd_calls [OF assms] get_calls [OF assms(1)]
    keys_calls [OF assms(1)] publish_calls [OF assms(1)] subscribe_no_lock
  by simp

theorem lock_discipline_witness:
  "self_conn ready_client = Some 1 \<and>
   self_lock ready_client = Some \<lparr>lock_redis = 1, lock_name = namespace ready_client @ '':lock''\<rparr> \<and>
   namespace ready_client @ '':lock'' = ''app:lock'' \<and>
   store_set env_data_error (ready_trace @ [Ev (LockEnter \<lparr>lock_redis = 1, lock_name = ''app:lock''\<rparr>) (Inr RUnit)])
     1 ''a'' (PStr ''1'') None = Inl (RedisError ''Connection lost'') \<and>
   calls (new_events ready_trace
     (snd (snd (client_set env_data_error ready_client ''a'' (PStr ''1'') None ready_trace)))) =
     [LockEnter \<lparr>lock_redis = 1, lock_name = ''app:lock''\<rparr>,
      Set 1 ''a'' (PStr ''1'') None,
      LockExit \<lparr>lock_redis = 1, lock_name = ''app:lock''\<rparr>] \<and>
   calls (new_events ready_trace
     (snd (snd (client_get env_data_error ready_client ''a'' ready_trace)))) = [Get 1 ''a''] \<and>
   lock_acquire env_lost ready_trace \<lparr>lock_redis = 1, lock_name = ''app:lock''\<rparr> =
     Inl (RedisError ''Connection lost'') \<and>
   calls (new_events ready_trace
     (snd (snd (client_sadd env_lost ready_client ''a'' [PStr ''x''] ready_trace)))) =
     [LockEnter \<lparr>lock_redis = 1, lock_name = ''app:lock''\<rparr>]"
proof -
  have ready: "self_conn ready_client = Some 1"
    "self_lock ready_client =
       Some \<lparr>lock_redis = 1, lock_name = namespace ready_client @ '':lock''\<rparr>"
    by (simp_all add: ready_client_eq)
  have acquired: "lock_acquire env_data_error ready_trace
      \<lparr>lock_redis = 1, lock_name = namespace ready_client @ '':lock''\<rparr> = Inr ()"
    by (simp add: env_data_error_def env_lost_def)
  have refused: "lock_acquire env_lost ready_trace
      \<lparr>lock_redis = 1, lock_name = namespace ready_client @ '':lock''\<rparr> =
        Inl (RedisError ''Connection lost'')"
    by (simp add: env_lost_def)
  from lock_discipline [OF ready, where env = env_data_error and tr = ready_trace
      and key = "''a''" and v = "PStr ''1''" and ex = None]
    lock_discipline [OF ready, where env = env_lost and tr = ready_trace
      and key = "''a''" and vs = "[PStr ''x'']"]
    acquired refused ready
  show ?thesis
    by (simp add: ready_client_eq env_data_error_def env_lost_def)
qed

section \<open>Exceptions of the callback\<close>

text \<open>
  A callback call that raised is the last event of the loop, and its exception is the
  outcome of the loop and of the block.
\<close>

lemma loop_run_callback_error:
  "loop_run cn n r es \<Longrightarrow> Ev (Callback v) (Inl e) \<in> set es \<Longrightarrow>
     r = Some (Inl e) \<and> (\<exists>es1. es = es1 @ [Ev (Callback v) (Inl e)])"
proof (induction rule: loop_run.induct)
  case (callback_raises m n e' lg)
  then show ?case by auto
next
  case (data_message m n r es lg)
  then obtain es1 where "r = Some (Inl e)" and "es = es1 @ [Ev (Callback v) (Inl e)]"
    by auto
  then show ?case by auto
next
  case (control_message m n r es)
  then obtain es1 where "r = Some (Inl e)" and "es = es1 @ [Ev (Callback v) (Inl e)]"
    by auto
  then show ?case by auto
qed simp_all

lemma body_run_callback_error:
  "body_run cn ch n r es \<Longrightarrow> Ev (Callback v) (Inl e) \<in> set es \<Longrightarrow>
     r = Some (Inl e) \<and> (\<exists>es1. es = es1 @ [Ev (Callback v) (Inl e)])"
proof (induction rule: body_run.induct)
  case (subscribe_raises n e')
  then show ?case by simp
next
  case (subscribed n r es lg)
  then obtain es1 where "r = Some (Inl e)" and "es = es1 @ [Ev (Callback v) (Inl e)]"
    using loop_run_callback_error [of cn n r es v e] by auto
  then show ?case by auto
qed

lemma subscribe_run_callback_error:
  assumes "subscribe_run cn ch n r es" and "Ev (Callback v) (Inl e) \<in> set es"
    and "\<forall>s. e \<noteq> RedisError s"
  shows "\<exists>es1 x lg.
           es = es1 @ [Ev (Callback v) (Inl e), Ev (PubsubExit cn) x] @ lg \<and> calls lg = [] \<and>
           r = Some (case x of Inr _ \<Rightarrow> Inl e
                             | Inl (RedisError s) \<Rightarrow> Inr ()
                             | Inl e' \<Rightarrow> Inl e')"
  using assms
proof (induction rule: subscribe_run.induct)
  case (listening n es)
  then show ?case using body_run_callback_error [of cn ch n None es v e] by simp
next
  case (closed n r es)
  then obtain es1 where "r = Inl e" and "es = es1 @ [Ev (Callback v) (Inl e)]"
    using body_run_callback_error [of cn ch n "Some r" es v e] by auto
  then show ?case
    by (intro exI [of _ es1] exI [of _ "Inr RUnit"] exI [of _ "[]"]) simp
next
  case (body_error_caught n s es lg)
  then show ?case
    using body_run_callback_error [of cn ch n "Some (Inl (RedisError s))" es v e] by auto
next
  case (close_error_caught n r es s lg)
  then obtain es1 where "es = es1 @ [Ev (Callback v) (Inl e)]"
    using body_run_callback_error [of cn ch n "Some r" es v e] by auto
  then show ?case
    by (intro exI [of _ es1] exI [of _ "Inl (RedisError s)"] exI [of _ "[Log ERROR lg]"]) simp
next
  case (close_raises n r es e')
  then obtain es1 where "es = es1 @ [Ev (Callback v) (Inl e)]"
    using body_run_callback_error [of cn ch n "Some r" es v e] by auto
  with close_raises show ?case
    by (intro exI [of _ es1] exI [of _ "Inl e'"] exI [of _ "[]"])
       (simp split: exn.splits)
qed

text \<open>
  C10, as stated: an exception of the callback that is not a store error is not caught,
  it propagates to the caller. It fails when leaving the \<^verbatim>\<open>async with\<close> raises a
  store error of its own: closing the pubsub object is part of unwinding the callback's
  exception, the error of the close replaces it, and the \<^verbatim>\<open>except RedisError\<close> around
  the block catches that one. \<^verbatim>\<open>subscribe\<close> then returns normally although the callback
  raised.
\<close>

theorem callback_error_swallowed_counterexample:
  "fst (client_subscribe (Suc (Suc (Suc 0))) env_exit_error ready_client ''news'' cb_raise
          ready_trace) = Some (Inr ()) \<and>
   Ev (Callback (PStr ''x'')) (Inl (OtherError ''ValueError'')) \<in>
     set (snd (snd (client_subscribe (Suc (Suc (Suc 0))) env_exit_error ready_client ''news''
                      cb_raise ready_trace))) \<and>
   Ev (PubsubExit 1) (Inl (RedisError ''Timed out closing connection'')) \<in>
     set (snd (snd (client_subscribe (Suc (Suc (Suc 0))) env_exit_error ready_client ''news''
                      cb_raise ready_trace)))"
  by (simp add: client_subscribe_def subscribe_body_def call_defs leave_def
      ready_client_eq ready_trace_eq env_exit_error_def env_ok_def demo_stream_def cb_raise_def
      demo_defs)

text \<open>
  C10, amended: if the callback raises an exception that is not a store error, the
  subscription loop ends and no further message is requested or delivered: the only call
  after the raising one is the close of the pubsub object. The exception propagates to
  the caller when that close returns normally; when the close raises, its exception takes
  the place of the callback's (a store error of the close is caught, and
  \<^verbatim>\<open>subscribe\<close> returns normally).
\<close>

theorem callback_error_ends_subscription:
  assumes "Ev (Callback v) (Inl e) \<in>
             set (new_events tr (snd (snd (client_subscribe n env c ch cb tr))))"
    and "\<forall>s. e \<noteq> RedisError s"
  shows "\<exists>cn es1 x lg.
           self_conn c = Some cn \<and>
           new_events tr (snd (snd (client_subscribe n env c ch cb tr))) =
             es1 @ [Ev (Callback v) (Inl e), Ev (PubsubExit cn) x] @ lg \<and>
           calls lg = [] \<and>
           fst (client_subscribe n env c ch cb tr) =
             Some (case x of Inr _ \<Rightarrow> Inl e
                           | Inl (RedisError s) \<Rightarrow> Inr ()
                           | Inl e' \<Rightarrow> Inl e')"
proof (cases "self_conn c")
  case None
  with assms(1) show ?thesis by (simp add: client_subscribe_closed new_events_def)
next
  case (Some cn)
  then obtain r es where run: "client_subscribe n env c ch cb tr = (r, c, tr @ es)"
    and sr: "subscribe_run cn ch n r es"
    using client_subscribe_run by blast
  from run assms(1) have "Ev (Callback v) (Inl e) \<in> set es"
    by (simp add: new_events_def)
  from subscribe_run_callback_error [OF sr this assms(2)] Some run show ?thesis
    by (simp add: new_events_def)
qed

theorem callback_error_ends_subscription_witness:
  "Ev (Callback (PStr ''x'')) (Inl (OtherError ''ValueError'')) \<in>
     set (new_events ready_trace
            (snd (snd (client_subscribe (Suc (Suc (Suc 0))) env_ok ready_client ''news''
                         cb_raise ready_trace)))) \<and>
   fst (client_subscribe (Suc (Suc (Suc 0))) env_ok ready_client ''news'' cb_raise ready_trace) =
     Some (Inl (OtherError ''ValueError'')) \<and>
   steps (new_events ready_trace
            (snd (snd (client_subscribe (Suc (Suc (Suc 0))) env_ok ready_client ''news''
                         cb_raise ready_trace)))) =
     [Asked (Inr (Some \<lparr>mtype = ''subscribe'', mpattern = None, mchannel = ''news'',
                         mdata = PInt 1\<rparr>)),
      Asked (Inr (Some \<lparr>mtype = ''message'', mpattern = None, mchannel = ''news'',
                         mdata = PStr ''x''\<rparr>)),
      Called (PStr ''x'')]"
proof -
  have raised: "Ev (Callback (PStr ''x'')) (Inl (OtherError ''ValueError'')) \<in>
     set (new_events ready_trace
            (snd (snd (client_subscribe (Suc (Suc (Suc 0))) env_ok ready_client ''news''
                         cb_raise ready_trace))))"
    by (simp add: client_subscribe_def subscribe_body_def call_defs leave_def new_events_def
      ready_client_eq ready_trace_eq env_ok_def demo_stream_def cb_raise_def demo_defs)
  have other: "\<forall>s. OtherError ''ValueError'' \<noteq> RedisError s"
    by simp
  from callback_error_ends_subscription [OF raised other] raised show ?thesis
    by (simp add: client_subscribe_def subscribe_body_def call_defs leave_def new_events_def
      ready_client_eq ready_trace_eq env_ok_def demo_stream_def cb_raise_def demo_defs)
qed

section \<open>Store errors\<close>

text \<open>
  What each operation does with a store error. A subscription that is still listening
  has met none; the others are read off the definitions.
\<close>

lemma loop_run_listening: "loop_run cn n r es \<Longrightarrow> r = None \<Longrightarrow> store_errors es = []"
  by (induction rule: loop_run.induct) simp_all

lemma body_run_listening: "body_run cn ch n r es \<Longrightarrow> r = None \<Longrightarrow> store_errors es = []"
  by (induction rule: body_run.induct) (simp_all add: loop_run_listening)

lemma subscribe_run_outcome:
  "subscribe_run cn ch n r es \<Longrightarrow>
     (\<forall>s. r \<noteq> Some (Inl (RedisError s))) \<and> (r = None \<longrightarrow> store_errors es = [])"
  by (induction rule: subscribe_run.induct) (simp_all add: body_run_listening)

lemma subscribe_outcome:
  "(\<forall>s. fst (client_subscribe n env c ch cb tr) \<noteq> Some (Inl (RedisError s))) \<and>
   (fst (client_subscribe n env c ch cb tr) = None \<longrightarrow>
      store_errors (new_events tr (snd (snd (client_subscribe n env c ch cb tr)))) = [])"
proof (cases "self_conn c")
  case None
  then show ?thesis by (simp add: client_subscribe_closed)
next
  case (Some cn)
  then obtain r es where "client_subscribe n env c ch cb tr = (r, c, tr @ es)"
    and "subscribe_run cn ch n r es"
    using client_subscribe_run by blast
  then show ?thesis
    using subscribe_run_outcome [of cn ch n r es] by (simp add: new_events_def)
qed

lemma get_outcome:
  "self_conn c = Some cn \<Longrightarrow>
     (\<forall>s. fst (client_get env c key tr) \<noteq> Inl (RedisError s)) \<and>
     (\<forall>s. store_get env tr cn key = Inl (RedisError s) \<longrightarrow> fst (client_get env c key tr) = Inr None)"
  by (auto simp: client_get_def call_defs split: sum.splits exn.splits)

lemma keys_outcome:
  "self_conn c = Some cn \<Longrightarrow>
     (\<forall>s. fst (client_keys env c pat tr) \<noteq> Inl (RedisError s)) \<and>
     (\<forall>s. store_keys env tr cn pat = Inl (RedisError s) \<longrightarrow> fst (client_keys env c pat tr) = Inr [])"
  by (auto simp: client_keys_def call_defs split: sum.splits exn.splits)

lemma publish_outcome:
  "self_conn c = Some cn \<Longrightarrow>
     (\<forall>s. fst (client_publish env c ch msg tr) \<noteq> Inl (RedisError s)) \<and>
     (\<forall>s. store_publish env tr cn ch msg = Inl (RedisError s) \<longrightarrow>
          fst (client_publish env c ch msg tr) = Inr ())"
  by (auto simp: client_publish_def call_defs split: sum.splits exn.splits)

lemma set_outcome:
  assumes "self_conn c = Some cn" and "self_lock c = Some l"
  shows "(\<forall>e. lock_acquire env tr l = Inl e \<longrightarrow> fst (client_set env c key v ex tr) = Inl e) \<and>
         (\<forall>s. fst (client_set env c key v ex tr) = Inl (RedisError s) \<longrightarrow>
              Ev (LockEnter l) (Inl (RedisError s)) \<in>
                set (new_events tr (snd (snd (client_set env c key v ex tr)))) \<or>
              Ev (LockExit l) (Inl (RedisError s)) \<in>
                set (new_events tr (snd (snd (client_set env c key v ex tr))))) \<and>
         (\<forall>s. Ev (Set cn key v ex) (Inl (RedisError s)) \<in>
                set (new_events tr (snd (snd (client_set env c key v ex tr)))) \<and>
              Ev (LockExit l) (Inr RUnit) \<in>
                set (new_events tr (snd (snd (client_set env c key v ex tr)))) \<longrightarrow>
              fst (client_set env c key v ex tr) = Inr ())"
  using assms
  by (auto simp: client_set_def set_body_def leave_def call_defs new_events_def
      split: sum.splits exn.splits prod.splits)

lemma sadd_outcome:
  assumes "self_conn c = Some cn" and "self_lock c = Some l"
  shows "(\<forall>e. lock_acquire env tr l = Inl e \<longrightarrow> fst (client_sadd env c key vs tr) = Inl e) \<and>
         (\<forall>s. fst (client_sadd env c key vs tr) = Inl (RedisError s) \<longrightarrow>
              Ev (LockEnter l) (Inl (RedisError s)) \<in>
                set (new_events tr (snd (snd (client_sadd env c key vs tr)))) \<or>
              Ev (LockExit l) (Inl (RedisError s)) \<in>
                set (new_events tr (snd (snd (client_sadd env c key vs tr))))) \<and>
         (\<forall>s. Ev (Sadd cn key vs) (Inl (RedisError s)) \<in>
                set (new_events tr (snd (snd (client_sadd env c key vs tr)))) \<and>
              Ev (LockExit l) (Inr RUnit) \<in>
                set (new_events tr (snd (snd (client_sadd env c key vs tr)))) \<longrightarrow>
              fst (client_sadd env c key vs tr) = Inr None)"
  using assms
  by (auto simp: client_sadd_def sadd_body_def leave_def call_defs new_events_def
      split: sum.splits exn.splits prod.splits)

lemma init_outcome:
  "\<forall>s. store_connect env tr (self_pool c) = Inl (RedisError s) \<longrightarrow>
       fst (client_init env c tr) = Inl (RedisError s)"
  by (simp add: client_init_def call_defs)

lemma set_release_outcome:
  assumes "self_conn c = Some cn" and "self_lock c = Some l"
  shows "\<forall>e. Ev (LockExit l) (Inl e) \<in>
               set (new_events tr (snd (snd (client_set env c key v ex tr)))) \<longrightarrow>
             fst (client_set env c key v ex tr) = Inl e"
  using assms
  by (auto simp: client_set_def set_body_def leave_def call_defs new_events_def
      split: sum.splits exn.splits prod.splits)

lemma sadd_release_outcome:
  assumes "self_conn c = Some cn" and "self_lock c = Some l"
  shows "\<forall>e. Ev (LockExit l) (Inl e) \<in>
               set (new_events tr (snd (snd (client_sadd env c key vs tr)))) \<longrightarrow>
             fst (client_sadd env c key vs tr) = Inl e"
  using assms
  by (auto simp: client_sadd_def sadd_body_def leave_def call_defs new_events_def
      split: sum.splits exn.splits prod.splits)

text \<open>
  C2, as stated: on an initialized client no operation propagates a store-level error,
  \<^verbatim>\<open>set\<close> and \<^verbatim>\<open>sadd\<close> complete without raising, only an init-time failure is raised
  again. It fails for \<^verbatim>\<open>set\<close> and \<^verbatim>\<open>sadd\<close>: their \<^verbatim>\<open>try\<close> is inside the
  \<^verbatim>\<open>async with self._lock\<close>, so a store error met while acquiring (or releasing) the
  lock is outside it. With the store lost after \<^verbatim>\<open>init\<close>, \<^verbatim>\<open>set\<close> raises the store
  error of the lock acquisition and never reaches its store operation.
\<close>

theorem set_raises_lock_error_counterexample:
  "self_conn ready_client = Some 1 \<and>
   self_lock ready_client = Some \<lparr>lock_redis = 1, lock_name = ''app:lock''\<rparr> \<and>
   client_set env_lost ready_client ''a'' (PStr ''1'') None ready_trace =
     (Inl (RedisError ''Connection lost''), ready_client,
      ready_trace @ [Ev (LockEnter \<lparr>lock_redis = 1, lock_name = ''app:lock''\<rparr>)
                        (Inl (RedisError ''Connection lost''))])"
  by (simp add: client_set_def call_defs ready_client_eq env_lost_def)

text \<open>
  C2, amended: on an initialized client, \<^verbatim>\<open>get\<close>, \<^verbatim>\<open>keys\<close>, \<^verbatim>\<open>publish\<close> and
  \<^verbatim>\<open>subscribe\<close> never propagate a store-level error: on a store error \<^verbatim>\<open>get\<close> returns
  absent, \<^verbatim>\<open>keys\<close> the empty sequence, \<^verbatim>\<open>publish\<close> returns normally, and a
  subscription that has met a store error has ended, without raising it. \<^verbatim>\<open>set\<close> and
  \<^verbatim>\<open>sadd\<close> swallow a store error of their store operation (they return normally when
  the lock is then released without error), but an error raised while acquiring or
  releasing the lock is propagated to the caller, and a store error leaves them only
  from the acquisition or the release of the lock. An init-time store error is raised
  again by \<^verbatim>\<open>init\<close>.
\<close>

theorem store_errors_of_operations:
  assumes "self_conn c = Some cn" and "self_lock c = Some l"
  shows "((\<forall>s. fst (client_get env c key tr) \<noteq> Inl (RedisError s)) \<and>
          (\<forall>s. store_get env tr cn key = Inl (RedisError s) \<longrightarrow>
               fst (client_get env c key tr) = Inr None)) \<and>
         ((\<forall>s. fst (client_keys env c pat tr) \<noteq> Inl (RedisError s)) \<and>
          (\<forall>s. store_keys env tr cn pat = Inl (RedisError s) \<longrightarrow>
               fst (client_keys env c pat tr) = Inr [])) \<and>
         ((\<forall>s. fst (client_publish env c ch msg tr) \<noteq> Inl (RedisError s)) \<and>
          (\<forall>s. store_publish env tr cn ch msg = Inl (RedisError s) \<longrightarrow>
               fst (client_publish env c ch msg tr) = Inr ())) \<and>
         ((\<forall>s. fst (client_subscribe n env c ch cb tr) \<noteq> Some (Inl (RedisError s))) \<and>
          (fst (client_subscribe n env c ch cb tr) = None \<longrightarrow>
             store_errors (new_events tr (snd (snd (client_subscribe n env c ch cb tr)))) = [])) \<and>
         ((\<forall>e. lock_acquire env tr l = Inl e \<longrightarrow> fst (client_set env c key v ex tr) = Inl e) \<and>
          (\<forall>s. fst (client_set env c key v ex tr) = Inl (RedisError s) \<longrightarrow>
               Ev (LockEnter l) (Inl (RedisError s)) \<in>
                 set (new_events tr (snd (snd (client_set env c key v ex tr)))) \<or>
               Ev (LockExit l) (Inl (RedisError s)) \<in>
                 set (new_events tr (snd (snd (client_set env c key v ex tr))))) \<and>
          (\<forall>s. Ev (Set cn key v ex) (Inl (RedisError s)) \<in>
                 set (new_events tr (snd (snd (client_set env c key v ex tr)))) \<and>
               Ev (LockExit l) (Inr RUnit) \<in>
                 set (new_events tr (snd (snd (client_set env c key v ex tr)))) \<longrightarrow>
               fst (client_set env c key v ex tr) = Inr ())) \<and>
         (\<forall>e. Ev (LockExit l) (Inl e) \<in>
                 set (new_events tr (snd (snd (client_set env c key v ex tr)))) \<longrightarrow>
               fst (client_set env c key v ex tr) = Inl e) \<and>
         ((\<forall>e. lock_acquire env tr l = Inl e \<longrightarrow> fst (client_sadd env c key vs tr) = Inl e) \<and>
          (\<forall>s. fst (client_sadd env c key vs tr) = Inl (RedisError s) \<longrightarrow>
               Ev (LockEnter l) (Inl (RedisError s)) \<in>
                 set (new_events tr (snd (snd (client_sadd env c key vs tr)))) \<or>
               Ev (LockExit l) (Inl (RedisError s)) \<in>
                 set (new_events tr (snd (snd (client_sadd env c key vs tr))))) \<and>
          (\<forall>s. Ev (Sadd cn key vs) (Inl (RedisError s)) \<in>
                 set (new_events tr (snd (snd (client_sadd env c key vs tr)))) \<and>
               Ev (LockExit l) (Inr RUnit) \<in>
                 set (new_events tr (snd (snd (client_sadd env c key vs tr)))) \<longrightarrow>
               fst (client_sadd env c key vs tr) = Inr None)) \<and>
         (\<forall>e. Ev (LockExit l) (Inl e) \<in>
                 set (new_events tr (snd (snd (client_sadd env c key vs tr)))) \<longrightarrow>
               fst (client_sadd env c key vs tr) = Inl e) \<and>
         (\<forall>s. store_connect env start (self_pool fresh) = Inl (RedisError s) \<longrightarrow>
               fst (client_init env fresh start) = Inl (RedisError s))"
  by (intro conjI [OF get_outcome [OF assms(1)]] conjI [OF keys_outcome [OF assms(1)]]
      conjI [OF publish_outcome [OF assms(1)]] conjI [OF subscribe_outcome]
      conjI [OF set_outcome [OF assms]] conjI [OF set_release_outcome [OF assms]]
      conjI [OF sadd_outcome [OF assms]] conjI [OF sadd_release_outcome [OF assms]]
      init_outcome)

theorem store_errors_of_operations_witness:
  "self_conn ready_client = Some 1 \<and>
   self_lock ready_client = Some \<lparr>lock_redis = 1, lock_name = ''app:lock''\<rparr> \<and>
   fst (client_get env_data_error ready_client ''a'' ready_trace) = Inr None \<and>
   fst (client_keys env_data_error ready_client ''a*'' ready_trace) = Inr [] \<and>
   fst (client_publish env_data_error ready_client ''news'' (PStr ''x'') ready_trace) = Inr () \<and>
   fst (client_subscribe (Suc 0) env_data_error ready_client ''news'' cb_ok ready_trace) =
     Some (Inr ()) \<and>
   fst (client_set env_data_error ready_client ''a'' (PStr ''1'') None ready_trace) = Inr () \<and>
   fst (client_sadd env_data_error ready_client ''a'' [PStr ''1''] ready_trace) = Inr None \<and>
   fst (client_set env_lost ready_client ''a'' (PStr ''1'') None ready_trace) =
     Inl (RedisError ''Connection lost'') \<and>
   fst (client_sadd env_lost ready_client ''a'' [PStr ''1''] ready_trace) =
     Inl (RedisError ''Connection lost'') \<and>
   fst (client_set env_release_error ready_client ''a'' (PStr ''1'') None ready_trace) =
     Inl (RedisError ''Cannot release a lock that is no longer owned'') \<and>
   fst (client_sadd env_release_error ready_client ''a'' [PStr ''1''] ready_trace) =
     Inl (RedisError ''Cannot release a lock that is no longer owned'') \<and>
   fst (client_init env_down demo_client []) = Inl (RedisError ''Connection refused'')"
proof -
  have ready: "self_conn ready_client = Some 1"
    "self_lock ready_client = Some \<lparr>lock_redis = 1, lock_name = ''app:lock''\<rparr>"
    by (simp_all add: ready_client_eq)
  have sub: "fst (client_subscribe (Suc 0) env_data_error ready_client ''news'' cb_ok
                    ready_trace) = Some (Inr ())"
    by (simp add: client_subscribe_def subscribe_body_def call_defs leave_def ready_client_eq
        env_data_error_def env_lost_def)
  have released: "Ev (Set 1 ''a'' (PStr ''1'') None) (Inl (RedisError ''Connection lost'')) \<in>
      set (new_events ready_trace
        (snd (snd (client_set env_data_error ready_client ''a'' (PStr ''1'') None ready_trace)))) \<and>
    Ev (LockExit \<lparr>lock_redis = 1, lock_name = ''app:lock''\<rparr>) (Inr RUnit) \<in>
      set (new_events ready_trace
        (snd (snd (client_set env_data_error ready_client ''a'' (PStr ''1'') None ready_trace))))"
    by (simp add: client_set_def set_body_def leave_def call_defs new_events_def ready_client_eq
        env_data_error_def env_lost_def)
  have released': "Ev (Sadd 1 ''a'' [PStr ''1'']) (Inl (RedisError ''Connection lost'')) \<in>
      set (new_events ready_trace
        (snd (snd (client_sadd env_data_error ready_client ''a'' [PStr ''1''] ready_trace)))) \<and>
    Ev (LockExit \<lparr>lock_redis = 1, lock_name = ''app:lock''\<rparr>) (Inr RUnit) \<in>
      set (new_events ready_trace
        (snd (snd (client_sadd env_data_error ready_client ''a'' [PStr ''1''] ready_trace))))"
    by (simp add: client_sadd_def sadd_body_def leave_def call_defs new_events_def ready_client_eq
        env_data_error_def env_lost_def)
  have failing: "store_get env_data_error ready_trace 1 ''a'' = Inl (RedisError ''Connection lost'')"
    "store_keys env_data_error ready_trace 1 ''a*'' = Inl (RedisError ''Connection lost'')"
    "store_publish env_data_error ready_trace 1 ''news'' (PStr ''x'') =
       Inl (RedisError ''Connection lost'')"
    "lock_acquire env_lost ready_trace \<lparr>lock_redis = 1, lock_name = ''app:lock''\<rparr> =
       Inl (RedisError ''Connection lost'')"
    by (simp_all add: env_data_error_def env_lost_def)
  have unreleased:
    "Ev (LockExit \<lparr>lock_redis = 1, lock_name = ''app:lock''\<rparr>)
        (Inl (RedisError ''Cannot release a lock that is no longer owned'')) \<in>
      set (new_events ready_trace
        (snd (snd (client_set env_release_error ready_client ''a'' (PStr ''1'') None
                     ready_trace))))"
    "Ev (LockExit \<lparr>lock_redis = 1, lock_name = ''app:lock''\<rparr>)
        (Inl (RedisError ''Cannot release a lock that is no longer owned'')) \<in>
      set (new_events ready_trace
        (snd (snd (client_sadd env_release_error ready_client ''a'' [PStr ''1''] ready_trace))))"
    by (simp_all add: client_set_def set_body_def client_sadd_def sadd_body_def leave_def
        call_defs new_events_def ready_client_eq env_release_error_def env_ok_def)
  have refused: "store_connect env_down [] (self_pool demo_client) =
      Inl (RedisError ''Connection refused'')"
    by (simp add: env_down_def env_ok_def)
  note data = store_errors_of_operations [OF ready, where env = env_data_error
      and tr = ready_trace and key = "''a''" and pat = "''a*''" and ch = "''news''"
      and msg = "PStr ''x''" and v = "PStr ''1''" and ex = None and vs = "[PStr ''1'']"
      and n = "Suc 0" and cb = cb_ok and fresh = demo_client and start = "[]"]
  note lost = store_errors_of_operations [OF ready, where env = env_lost
      and tr = ready_trace and key = "''a''" and pat = "''a*''" and ch = "''news''"
      and msg = "PStr ''x''" and v = "PStr ''1''" and ex = None and vs = "[PStr ''1'']"
      and n = "Suc 0" and cb = cb_ok and fresh = demo_client and start = "[]"]
  note release = store_errors_of_operations [OF ready, where env = env_release_error
      and tr = ready_trace and key = "''a''" and pat = "''a*''" and ch = "''news''"
      and msg = "PStr ''x''" and v = "PStr ''1''" and ex = None and vs = "[PStr ''1'']"
      and n = "Suc 0" and cb = cb_ok and fresh = demo_client and start = "[]"]
  note down = store_errors_of_operations [OF ready, where env = env_down
      and tr = ready_trace and key = "''a''" and pat = "''a*''" and ch = "''news''"
      and msg = "PStr ''x''" and v = "PStr ''1''" and ex = None and vs = "[PStr ''1'']"
      and n = "Suc 0" and cb = cb_ok and fresh = demo_client and start = "[]"]
  from release unreleased(1)
  have rs: "fst (client_set env_release_error ready_client ''a'' (PStr ''1'') None ready_trace) =
      Inl (RedisError ''Cannot release a lock that is no longer owned'')"
    by blast
  from release unreleased(2)
  have ra: "fst (client_sadd env_release_error ready_client ''a'' [PStr ''1''] ready_trace) =
      Inl (RedisError ''Cannot release a lock that is no longer owned'')"
    by blast
  from down refused
  have ini: "fst (client_init env_down demo_client []) = Inl (RedisError ''Connection refused'')"
    by blast
  from data failing(1) have g: "fst (client_get env_data_error ready_client ''a'' ready_trace) = Inr None"
    by blast
  from data failing(2) have k: "fst (client_keys env_data_error ready_client ''a*'' ready_trace) = Inr []"
    by blast
  from data failing(3)
  have p: "fst (client_publish env_data_error ready_client ''news'' (PStr ''x'') ready_trace) = Inr ()"
    by blast
  from data released
  have st: "fst (client_set env_data_error ready_client ''a'' (PStr ''1'') None ready_trace) = Inr ()"
    by blast
  from data released'
  have sa: "fst (client_sadd env_data_error ready_client ''a'' [PStr ''1''] ready_trace) = Inr None"
    by blast
  from lost failing(4)
  have st': "fst (client_set env_lost ready_client ''a'' (PStr ''1'') None ready_trace) =
      Inl (RedisError ''Connection lost'')"
    by blast
  from lost failing(4)
  have sa': "fst (client_sadd env_lost ready_client ''a'' [PStr ''1''] ready_trace) =
      Inl (RedisError ''Connection lost'')"
    by blast
  from ready sub g k p st sa st' sa' rs ra ini show ?thesis
    by simp
qed

end
